theory Spec2Isabelle
  imports Complex_Main "HOL-Library.AList" "HOL-Library.Sublist"
begin

section \<open>Values, records and errors\<close>

text \<open>
  A record of the data handler is a Python dict from field names to values. The values
  that occur are \<open>None\<close>, booleans, integers, floats, strings, byte buffers (encoded
  images), lists (\<open>_send_to\<close>) and nested dicts (\<open>sent_to\<close>). A finite float is kept as
  the rational number it denotes; NaN and the infinities are not represented. A dict is an
  association list in insertion order without repeated keys.
\<close>

datatype pyval =
    PNone
  | PBool bool
  | PInt int
  | PFloat rat
  | PStr string
  | PBytes string
  | PList "pyval list"
  | PDict "(string \<times> pyval) list"

type_synonym pydict = "(string \<times> pyval) list"

datatype error =
    KeyError | ValueError | TypeError | IndexError | ZeroDivisionError | AttributeError

subsection \<open>Field keys and data types (constants.py)\<close>

abbreviation SPOT_CAMR_ID :: string where "SPOT_CAMR_ID \<equiv> ''spot_camr_id''"
abbreviation CAR_TYPE :: string where "CAR_TYPE \<equiv> ''kncr_cd''"
abbreviation LANE_NO :: string where "LANE_NO \<equiv> ''lane_no''"
abbreviation TURN_TYPE_CD :: string where "TURN_TYPE_CD \<equiv> ''turn_type_cd''"
abbreviation TURN_TIME :: string where "TURN_TIME \<equiv> ''turn_dttn_unix_tm''"
abbreviation TURN_SPEED :: string where "TURN_SPEED \<equiv> ''turn_dttn_sped''"
abbreviation STOP_PASS_TIME :: string where "STOP_PASS_TIME \<equiv> ''stln_pasg_unix_tm''"
abbreviation STOP_PASS_SPEED :: string where "STOP_PASS_SPEED \<equiv> ''stln_dttn_sped''"
abbreviation INTERVAL_SPEED :: string where "INTERVAL_SPEED \<equiv> ''vhcl_sect_sped''"
abbreviation FIRST_DET_TIME :: string where "FIRST_DET_TIME \<equiv> ''frst_obsrvn_unix_tm''"
abbreviation OBSERVE_TIME :: string where "OBSERVE_TIME \<equiv> ''vhcl_obsrvn_hr''"
abbreviation IMAGE_PATH_NAME :: string where "IMAGE_PATH_NAME \<equiv> ''img_path_nm''"
abbreviation IMAGE_FILE_NAME :: string where "IMAGE_FILE_NAME \<equiv> ''img_file_nm''"
abbreviation CAR_IMAGE_FILE_NAME :: string where "CAR_IMAGE_FILE_NAME \<equiv> ''vhcl_img_file_nm''"
abbreviation PLATE_IMAGE_FILE_NAME :: string where "PLATE_IMAGE_FILE_NAME \<equiv> ''nopl_img_file_nm''"
abbreviation PLATE_NUM :: string where "PLATE_NUM \<equiv> ''vhno_nm''"
abbreviation PLATE_YN :: string where "PLATE_YN \<equiv> ''vhno_dttn_yn''"
abbreviation CAR_ID_2K :: string where "CAR_ID_2K \<equiv> ''vhcl_dttn_2k_id''"
abbreviation CAR_ID_4K :: string where "CAR_ID_4K \<equiv> ''vhcl_dttn_4k_id''"
abbreviation CAR_ID :: string where "CAR_ID \<equiv> ''vhcl_dttn_id''"
abbreviation PRESENCE_STATE :: string where "PRESENCE_STATE \<equiv> ''presence_state''"
abbreviation DATA_TYPE :: string where "DATA_TYPE \<equiv> ''data_type''"
abbreviation UK :: string where "UK \<equiv> ''unique_key''"
abbreviation UK_PLAIN :: string where "UK_PLAIN \<equiv> ''unique_key_plain''"
abbreviation IMAGE_FILE :: string where "IMAGE_FILE \<equiv> ''image_file''"
abbreviation IMAGE_BYTES_4K :: string where "IMAGE_BYTES_4K \<equiv> ''image_data_4k''"
abbreviation IMAGE_BYTES_PLATE_4K :: string where "IMAGE_BYTES_PLATE_4K \<equiv> ''plate_image_data_4k''"
abbreviation OBJ_ID :: string where "OBJ_ID \<equiv> ''object_id''"

abbreviation VEHICLE_2K :: string where "VEHICLE_2K \<equiv> ''2k''"
abbreviation VEHICLE_4K :: string where "VEHICLE_4K \<equiv> ''4k''"
abbreviation VEHICLE_RAW_4K :: string where "VEHICLE_RAW_4K \<equiv> ''4k_R''"
abbreviation MERGE :: string where "MERGE \<equiv> ''merge''"
abbreviation QUEUE_APPROACH :: string where "QUEUE_APPROACH \<equiv> ''approach_queue''"
abbreviation QUEUE_LANES :: string where "QUEUE_LANES \<equiv> ''lanes_queue''"
abbreviation INCIDENT_START :: string where "INCIDENT_START \<equiv> ''abn_start''"
abbreviation PRESENCE_VH :: string where "PRESENCE_VH \<equiv> ''pr_vh''"
abbreviation PRESENCE_WAIT :: string where "PRESENCE_WAIT \<equiv> ''pr_wt''"
abbreviation PRESENCE_CROSS :: string where "PRESENCE_CROSS \<equiv> ''pr_cr''"

subsection \<open>Dict access\<close>

text \<open>
  The receiver and the retry worker wrap every record in \<open>defaultdict(lambda: 'NULL')\<close>.
  On such a record \<open>d[k]\<close> never raises: for a missing key it returns \<open>'NULL'\<close> and
  stores it under \<open>k\<close>. \<open>dget\<close> is the value read and \<open>touch\<close> the record after the
  read. \<open>d.get(k)\<close> stores nothing and is \<open>map_of d k\<close>; \<open>d[k] = v\<close> is \<open>dset\<close>.
\<close>

definition dget :: "pydict \<Rightarrow> string \<Rightarrow> pyval" where
  "dget d k = (case map_of d k of Some v \<Rightarrow> v | None \<Rightarrow> PStr ''NULL'')"

definition touch :: "string \<Rightarrow> pydict \<Rightarrow> pydict" where
  "touch k d = (case map_of d k of Some v \<Rightarrow> d | None \<Rightarrow> d @ [(k, PStr ''NULL'')])"

definition dset :: "string \<Rightarrow> pyval \<Rightarrow> pydict \<Rightarrow> pydict" where
  "dset k v d = AList.update k v d"

text \<open>A plain dict raises \<open>KeyError\<close> on a missing key.\<close>

definition pget :: "pydict \<Rightarrow> string \<Rightarrow> error + pyval" where
  "pget d k = (case map_of d k of Some v \<Rightarrow> Inr v | None \<Rightarrow> Inl KeyError)"

subsection \<open>The builtin \<open>int\<close>\<close>

text \<open>
  \<open>int(s)\<close> on a string strips surrounding whitespace, reads an optional sign and then
  decimal digits, where single underscores may stand between digits; anything else is a
  \<open>ValueError\<close>. On a float it truncates towards zero, on a bool it gives 0 or 1, and on
  \<open>None\<close>, a list or a dict it is a \<open>TypeError\<close>.
\<close>

definition is_digit :: "char \<Rightarrow> bool" where
  "is_digit c = (48 \<le> (of_char c :: nat) \<and> (of_char c :: nat) \<le> 57)"

definition digit_val :: "char \<Rightarrow> nat" where
  "digit_val c = of_char c - 48"

definition is_space :: "char \<Rightarrow> bool" where
  "is_space c = (let n = (of_char c :: nat) in n = 32 \<or> (9 \<le> n \<and> n \<le> 13) \<or> (28 \<le> n \<and> n \<le> 31))"

fun parse_digits :: "nat \<Rightarrow> string \<Rightarrow> nat option" where
  "parse_digits acc [] = Some acc"
| "parse_digits acc [c] = (if is_digit c then Some (10 * acc + digit_val c) else None)"
| "parse_digits acc (c # d # cs) =
     (if \<not> is_digit c then None
      else if d = CHR ''_'' then
        (case cs of
           [] \<Rightarrow> None
         | e # es \<Rightarrow> if is_digit e then parse_digits (10 * acc + digit_val c) cs else None)
      else parse_digits (10 * acc + digit_val c) (d # cs))"

definition strip :: "string \<Rightarrow> string" where
  "strip s = rev (dropWhile is_space (rev (dropWhile is_space s)))"

definition int_of_str :: "string \<Rightarrow> int option" where
  "int_of_str s =
     (case strip s of
        [] \<Rightarrow> None
      | c # cs \<Rightarrow>
          if c = CHR ''-'' then
            (if cs = [] then None else map_option (\<lambda>n. - int n) (parse_digits 0 cs))
          else if c = CHR ''+'' then
            (if cs = [] then None else map_option int (parse_digits 0 cs))
          else map_option int (parse_digits 0 (c # cs)))"

fun py_int :: "pyval \<Rightarrow> error + int" where
  "py_int (PInt i) = Inr i"
| "py_int (PBool b) = Inr (if b then 1 else 0)"
| "py_int (PFloat r) = Inr (if 0 \<le> r then \<lfloor>r\<rfloor> else \<lceil>r\<rceil>)"
| "py_int (PStr s) = (case int_of_str s of Some i \<Rightarrow> Inr i | None \<Rightarrow> Inl ValueError)"
| "py_int (PBytes s) = (case int_of_str s of Some i \<Rightarrow> Inr i | None \<Rightarrow> Inl ValueError)"
| "py_int PNone = Inl TypeError"
| "py_int (PList xs) = Inl TypeError"
| "py_int (PDict kvs) = Inl TypeError"

subsection \<open>\<open>bisect.bisect_left\<close>\<close>

text \<open>The binary search of the standard library, on any list, sorted or not.\<close>

function bisect_loop :: "int list \<Rightarrow> int \<Rightarrow> nat \<Rightarrow> nat \<Rightarrow> nat" where
  "bisect_loop a x lo hi =
     (if lo < hi then
        (let mid = (lo + hi) div 2 in
         if a ! mid < x then bisect_loop a x (mid + 1) hi else bisect_loop a x lo mid)
      else lo)"
  by pat_completeness auto
termination
  by (relation "measure (\<lambda>(a, x, lo, hi). hi - lo)") auto

declare bisect_loop.simps [simp del]

definition bisect_left :: "int list \<Rightarrow> int \<Rightarrow> nat" where
  "bisect_left a x = bisect_loop a x 0 (length a)"

subsection \<open>The builtin \<open>str\<close> on integers and list indexing\<close>

fun str_of_nat :: "nat \<Rightarrow> string" where
  "str_of_nat n =
     (if n < 10 then [''0123456789'' ! n]
      else str_of_nat (n div 10) @ [''0123456789'' ! (n mod 10)])"

declare str_of_nat.simps [simp del]

definition str_of_int :: "int \<Rightarrow> string" where
  "str_of_int i = (if i < 0 then CHR ''-'' # str_of_nat (nat (- i)) else str_of_nat (nat i))"

text \<open>\<open>xs[i]\<close>: a negative index counts from the end, out of range is an \<open>IndexError\<close>.\<close>

definition py_nth :: "'a list \<Rightarrow> int \<Rightarrow> error + 'a" where
  "py_nth xs i =
     (if 0 \<le> i \<and> i < int (length xs) then Inr (xs ! nat i)
      else if i < 0 \<and> - int (length xs) \<le> i then Inr (xs ! nat (int (length xs) + i))
      else Inl IndexError)"

section \<open>The merger (data/merger.py)\<close>

subsection \<open>Bucket maps\<close>

text \<open>
  \<open>compare_2k\<close> and \<open>compare_4k\<close> are \<open>defaultdict(list)\<close> keyed by the tuple
  \<open>(lane_no, car_type)\<close>. Tuples of lists or dicts cannot be hashed; numbers of
  different types are equal keys when they denote the same number.
\<close>

fun hashable :: "pyval \<Rightarrow> bool" where
  "hashable (PList xs) = False"
| "hashable (PDict kvs) = False"
| "hashable v = True"

fun num_val :: "pyval \<Rightarrow> rat option" where
  "num_val (PBool b) = Some (if b then 1 else 0)"
| "num_val (PInt i) = Some (of_int i)"
| "num_val (PFloat r) = Some r"
| "num_val v = None"

definition py_eq :: "pyval \<Rightarrow> pyval \<Rightarrow> bool" where
  "py_eq a b =
     (case (num_val a, num_val b) of
        (Some x, Some y) \<Rightarrow> x = y
      | (None, None) \<Rightarrow> a = b
      | _ \<Rightarrow> False)"

type_synonym bkey = "pyval \<times> pyval"
type_synonym bmap = "(bkey \<times> pydict list) list"

definition key_eq :: "bkey \<Rightarrow> bkey \<Rightarrow> bool" where
  "key_eq a b = (py_eq (fst a) (fst b) \<and> py_eq (snd a) (snd b))"

fun bm_get :: "bkey \<Rightarrow> bmap \<Rightarrow> pydict list option" where
  "bm_get k [] = None"
| "bm_get k ((k', b) # m) = (if key_eq k k' then Some b else bm_get k m)"

fun bm_set :: "bkey \<Rightarrow> pydict list \<Rightarrow> bmap \<Rightarrow> bmap" where
  "bm_set k b [] = [(k, b)]"
| "bm_set k b ((k', b') # m) = (if key_eq k k' then (k', b) # m else (k', b') # bm_set k b m)"

fun bm_pop :: "bkey \<Rightarrow> bmap \<Rightarrow> bmap" where
  "bm_pop k [] = []"
| "bm_pop k ((k', b) # m) = (if key_eq k k' then m else (k', b) # bm_pop k m)"

text \<open>\<open>bucket_map[key]\<close> on the defaultdict: a missing key gets an empty bucket.\<close>

definition bm_ensure :: "bkey \<Rightarrow> bmap \<Rightarrow> bmap" where
  "bm_ensure k m = (case bm_get k m of Some b \<Rightarrow> m | None \<Rightarrow> m @ [(k, [])])"

subsection \<open>Sorted insertion\<close>

text \<open>\<open>[int(x.get(STOP_PASS_TIME, 0)) for x in bucket]\<close>\<close>

fun times_of :: "pydict list \<Rightarrow> error + int list" where
  "times_of [] = Inr []"
| "times_of (x # xs) =
     (case py_int (case map_of x STOP_PASS_TIME of Some v \<Rightarrow> v | None \<Rightarrow> PInt 0) of
        Inl e \<Rightarrow> Inl e
      | Inr t \<Rightarrow> (case times_of xs of Inl e \<Rightarrow> Inl e | Inr ts \<Rightarrow> Inr (t # ts)))"

definition insert_at :: "nat \<Rightarrow> 'a \<Rightarrow> 'a list \<Rightarrow> 'a list" where
  "insert_at i x xs = take i xs @ x # drop i xs"

definition insert_sorted :: "pydict list \<Rightarrow> pydict \<Rightarrow> error + pydict list" where
  "insert_sorted bucket record =
     (let r = touch STOP_PASS_TIME record in
      case py_int (dget r STOP_PASS_TIME) of
        Inl e \<Rightarrow> Inl e
      | Inr timestamp \<Rightarrow>
          (case times_of bucket of
             Inl e \<Rightarrow> Inl e
           | Inr timelist \<Rightarrow> Inr (insert_at (bisect_left timelist timestamp) r bucket)))"

text \<open>
  The three statements \<open>key = (record[LANE_NO], record[CAR_TYPE])\<close>,
  \<open>bucket = bucket_map[key]\<close> and \<open>_insert_sorted(bucket, record)\<close>, which
  \<open>main_loop\<close> and \<open>_drain_queue\<close> both run. The result is the exception raised, if
  any, and the bucket map as the statements leave it.
\<close>

definition put_record :: "pydict \<Rightarrow> bmap \<Rightarrow> error option \<times> bmap" where
  "put_record record m =
     (let r = touch CAR_TYPE (touch LANE_NO record);
          key = (dget r LANE_NO, dget r CAR_TYPE)
      in if \<not> (hashable (fst key) \<and> hashable (snd key)) then (Some TypeError, m)
         else
           (let m1 = bm_ensure key m in
            case bm_get key m1 of
              None \<Rightarrow> (Some KeyError, m1)
            | Some bucket \<Rightarrow>
                (case insert_sorted bucket r of
                   Inl e \<Rightarrow> (Some e, m1)
                 | Inr bucket' \<Rightarrow> (None, bm_set key bucket' m1))))"

subsection \<open>\<open>_drain_queue\<close>\<close>

text \<open>
  The queue is emptied record by record; a u-turn record (\<open>turn_type_cd == "41"\<close>) is
  skipped. An exception leaves the rest of the queue in place. The result is the
  exception, the queue that remains and the bucket map.
\<close>

fun drain_queue :: "pydict list \<Rightarrow> bmap \<Rightarrow> error option \<times> pydict list \<times> bmap" where
  "drain_queue [] m = (None, [], m)"
| "drain_queue (record # q) m =
     (if map_of record TURN_TYPE_CD = Some (PStr ''41'') then drain_queue q m
      else
        (case put_record record m of
           (Some e, m') \<Rightarrow> (Some e, q, m')
         | (None, m') \<Rightarrow> drain_queue q m'))"

subsection \<open>\<open>_remove_old_data\<close>\<close>

text \<open>
  \<open>now\<close> is the value \<open>int(time.time())\<close> returns in this call. Buckets are visited
  in the order of the keys; a bucket that is or becomes empty is removed.
\<close>

fun remove_old_data :: "int \<Rightarrow> bmap \<Rightarrow> error option \<times> bmap" where
  "remove_old_data now [] = (None, [])"
| "remove_old_data now ((key, bucket) # m) =
     (case times_of bucket of
        Inl e \<Rightarrow> (Some e, (key, bucket) # m)
      | Inr tms \<Rightarrow>
          (let k = bisect_left tms (now - 60);
               bucket' = (if k > 0 then drop k bucket else bucket)
           in case remove_old_data now m of
                (e, m') \<Rightarrow> (e, if bucket' = [] then m' else (key, bucket') # m')))"

subsection \<open>The special-site remap (\<open>build_luwon\<close> of data/router.py)\<close>

text \<open>
  The configuration \<open>special_site\<close>: the switch and, for each direction, the camera id
  and the list of real lane numbers.
\<close>

record dir_cfg =
  cam_id :: pyval
  lane :: "int list"

record luwon_cfg =
  enabled :: bool
  dir_straight :: dir_cfg
  dir_left :: dir_cfg
  dir_right :: dir_cfg

text \<open>\<open>dir_map[redis_data[TURN_TYPE_CD]]\<close> followed by \<open>luwon_cfg["dir"][direction]\<close>\<close>

definition luwon_dir :: "luwon_cfg \<Rightarrow> pyval \<Rightarrow> error + dir_cfg" where
  "luwon_dir cfg v =
     (if \<not> hashable v then Inl TypeError
      else if v = PStr ''11'' then Inr (dir_straight cfg)
      else if v = PStr ''21'' then Inr (dir_left cfg)
      else if v = PStr ''31'' then Inr (dir_right cfg)
      else Inl KeyError)"

text \<open>
  A record is read as a defaultdict (\<open>dd = True\<close>, in the merger) or as a plain dict
  (\<open>dd = False\<close>, in the router).
\<close>

definition rd :: "bool \<Rightarrow> pydict \<Rightarrow> string \<Rightarrow> error + pyval" where
  "rd dd d k = (if dd then Inr (dget d k) else pget d k)"

definition rd_touch :: "bool \<Rightarrow> string \<Rightarrow> pydict \<Rightarrow> pydict" where
  "rd_touch dd k d = (if dd then touch k d else d)"

text \<open>The lane index chosen for a direction with \<open>n\<close> configured lanes.\<close>

definition luwon_lane :: "int list \<Rightarrow> pyval \<Rightarrow> error + int" where
  "luwon_lane lanes lane_no =
     (if length lanes = 1 then py_nth lanes 0
      else if length lanes = 2 then
        (case py_int lane_no of
           Inl e \<Rightarrow> Inl e
         | Inr l \<Rightarrow> py_nth lanes (if l = 1 \<or> l = 2 then 0 else 1))
      else if length lanes = 3 then
        (case py_int lane_no of
           Inl e \<Rightarrow> Inl e
         | Inr l \<Rightarrow> py_nth lanes (if l = 4 then 2 else if l = 1 \<or> l = 2 then 0 else 1))
      else
        (case py_int lane_no of
           Inl e \<Rightarrow> Inl e
         | Inr l \<Rightarrow> py_nth lanes (l - 1)))"

text \<open>The result is the pair \<open>(to_server, to_merge)\<close> of the \<open>BuildResult\<close>.\<close>

definition build_luwon ::
  "luwon_cfg \<Rightarrow> bool \<Rightarrow> pydict \<Rightarrow> error + (pydict list \<times> pydict list)" where
  "build_luwon cfg dd redis_data =
     (case rd dd redis_data TURN_TYPE_CD of
        Inl e \<Rightarrow> Inl e
      | Inr turn \<Rightarrow>
     (case luwon_dir cfg turn of
        Inl e \<Rightarrow> Inl e
      | Inr dc \<Rightarrow>
          (let r1 = dset SPOT_CAMR_ID (cam_id dc) (rd_touch dd TURN_TYPE_CD redis_data);
               to_merge_q = r1
           in
     (case (if length (lane dc) = 1 then Inr PNone else rd dd r1 LANE_NO) of
        Inl e \<Rightarrow> Inl e
      | Inr lane_no \<Rightarrow>
     (case luwon_lane (lane dc) lane_no of
        Inl e \<Rightarrow> Inl e
      | Inr real_lane \<Rightarrow>
          (let r2 = dset LANE_NO (PStr (str_of_int real_lane))
                      (if length (lane dc) = 1 then r1 else rd_touch dd LANE_NO r1)
           in
     (case rd dd r2 CAR_ID_2K of
        Inl e \<Rightarrow> Inl e
      | Inr cid \<Rightarrow>
          (let to_merge_table =
                 dset ''_send_to'' (PList [PStr ''middleware''])
                   (dset CAR_ID cid
                     (dset PLATE_YN (PStr ''N'') (dset DATA_TYPE (PStr MERGE) r2)))
           in Inr ([rd_touch dd CAR_ID_2K r2, to_merge_table], [to_merge_q])))))))))"

subsection \<open>The matching pass (\<open>_compare\<close>)\<close>

text \<open>
  What one match does with \<open>item_2k\<close> and \<open>item_4k\<close>: the merged record is a copy of
  the 2K record with \<open>data_type\<close>, \<open>car_id\<close>, the plate image file name and the plate
  number set; with the special site on, the merged record is remapped and the 4K record,
  with the remapped camera and lane, is put on the server queue before it. The result is
  the exception, the records put on the server queue, and the two items as the reads and
  writes leave them.
\<close>

definition merged_of :: "pydict \<Rightarrow> pydict \<Rightarrow> pydict" where
  "merged_of item_2k item_4k =
     dset PLATE_NUM (dget item_4k PLATE_NUM)
       (dset PLATE_IMAGE_FILE_NAME (dget item_4k PLATE_IMAGE_FILE_NAME)
         (dset CAR_ID (dget item_2k CAR_ID_2K)
           (dset DATA_TYPE (PStr MERGE) item_2k)))"

definition merge_pair ::
  "luwon_cfg \<Rightarrow> pydict \<Rightarrow> pydict \<Rightarrow> error option \<times> pydict list \<times> pydict \<times> pydict" where
  "merge_pair cfg item_2k item_4k =
     (let merged = merged_of item_2k item_4k;
          x1 = touch CAR_ID_2K item_2k;
          y1 = touch PLATE_NUM (touch PLATE_IMAGE_FILE_NAME item_4k)
      in if enabled cfg then
           (case build_luwon cfg True merged of
              Inl e \<Rightarrow> (Some e, [], x1, y1)
            | Inr (to_server, to_merge) \<Rightarrow>
                (case to_server of
                   [] \<Rightarrow> (Some IndexError, [], x1, y1)
                 | merged' # rest \<Rightarrow>
                     (let y2 = dset LANE_NO (dget merged' LANE_NO)
                                 (dset SPOT_CAMR_ID (dget merged' SPOT_CAMR_ID) y1)
                      in (None, [touch UK_PLAIN y2, merged'],
                          touch UK_PLAIN x1, touch UK_PLAIN y2))))
         else (None, [merged], touch UK_PLAIN x1, touch UK_PLAIN y1))"

text \<open>
  The two-pointer loop over one key's buckets, from the pointers \<open>i\<close>, \<open>j\<close>, the lists
  \<open>matched_2k\<close>, \<open>matched_4k\<close> and the records put on the server queue so far. The
  result is the exception, the two buckets (their items are changed in place), the two
  lists of matched indices and the records put on the server queue.
\<close>

function walk ::
  "luwon_cfg \<Rightarrow> pydict list \<Rightarrow> pydict list \<Rightarrow> nat \<Rightarrow> nat \<Rightarrow> nat list \<Rightarrow> nat list \<Rightarrow> pydict list
   \<Rightarrow> error option \<times> pydict list \<times> pydict list \<times> nat list \<times> nat list \<times> pydict list" where
  "walk cfg data_2k data_4k i j matched_2k matched_4k out =
     (if i < length data_2k \<and> j < length data_4k then
        (let d2 = data_2k[i := touch STOP_PASS_TIME (data_2k ! i)] in
         case py_int (dget (data_2k ! i) STOP_PASS_TIME) of
           Inl e \<Rightarrow> (Some e, d2, data_4k, matched_2k, matched_4k, out)
         | Inr t2 \<Rightarrow>
        (let d4 = data_4k[j := touch STOP_PASS_TIME (data_4k ! j)] in
         case py_int (dget (data_4k ! j) STOP_PASS_TIME) of
           Inl e \<Rightarrow> (Some e, d2, d4, matched_2k, matched_4k, out)
         | Inr t4 \<Rightarrow>
             if \<bar>t2 - t4\<bar> \<le> 1 then
               (case merge_pair cfg (d2 ! i) (d4 ! j) of
                  (Some e, put, x, y) \<Rightarrow>
                    (Some e, d2[i := x], d4[j := y], matched_2k, matched_4k, out @ put)
                | (None, put, x, y) \<Rightarrow>
                    walk cfg (d2[i := x]) (d4[j := y]) (i + 1) (j + 1)
                      (matched_2k @ [i]) (matched_4k @ [j]) (out @ put))
             else if t2 < t4 - 1 then walk cfg d2 d4 (i + 1) j matched_2k matched_4k out
             else walk cfg d2 d4 i (j + 1) matched_2k matched_4k out))
      else (None, data_2k, data_4k, matched_2k, matched_4k, out))"
  by pat_completeness auto
termination
  by (relation "measure (\<lambda>(cfg, d2, d4, i, j, m2, m4, out). (length d2 - i) + (length d4 - j))")
     auto

declare walk.simps [simp del]

text \<open>\<open>for index in reversed(matched): del data[index]\<close>\<close>

definition del_at :: "nat \<Rightarrow> 'a list \<Rightarrow> 'a list" where
  "del_at i xs = take i xs @ drop (Suc i) xs"

definition del_matched :: "nat list \<Rightarrow> 'a list \<Rightarrow> 'a list" where
  "del_matched matched xs = fold del_at (rev matched) xs"

text \<open>
  The merger: its two bucket maps and the three queues it reads and writes.
\<close>

record merger =
  compare_2k :: bmap
  compare_4k :: bmap
  to_server_q :: "pydict list"
  to_merge_q_2k :: "pydict list"
  to_merge_q_4k :: "pydict list"

text \<open>
  The loop over the common keys. \<open>common_keys\<close> is a Python set, whose order of
  iteration is not fixed; the keys are taken here in the order given.
\<close>

fun compare_keys :: "luwon_cfg \<Rightarrow> bkey list \<Rightarrow> merger \<Rightarrow> error option \<times> merger" where
  "compare_keys cfg [] s = (None, s)"
| "compare_keys cfg (key # keys) s =
     (case (bm_get key (compare_2k s), bm_get key (compare_4k s)) of
        (Some data_2k, Some data_4k) \<Rightarrow>
          if data_2k = [] \<or> data_4k = [] then compare_keys cfg keys s
          else
            (case walk cfg data_2k data_4k 0 0 [] [] [] of
               (Some e, d2, d4, matched_2k, matched_4k, put) \<Rightarrow>
                 (Some e, s\<lparr>compare_2k := bm_set key d2 (compare_2k s),
                            compare_4k := bm_set key d4 (compare_4k s),
                            to_server_q := to_server_q s @ put\<rparr>)
             | (None, d2, d4, matched_2k, matched_4k, put) \<Rightarrow>
                 (let d2' = del_matched matched_2k d2;
                      d4' = del_matched matched_4k d4;
                      c2 = (if d2' = [] then bm_pop key (compare_2k s)
                            else bm_set key d2' (compare_2k s));
                      c4 = (if d4' = [] then bm_pop key (compare_4k s)
                            else bm_set key d4' (compare_4k s))
                  in compare_keys cfg keys
                       (s\<lparr>compare_2k := c2, compare_4k := c4,
                          to_server_q := to_server_q s @ put\<rparr>)))
      | _ \<Rightarrow> compare_keys cfg keys s)"

text \<open>
  \<open>now1\<close> and \<open>now2\<close> are the clock readings of the two calls of
  \<open>_remove_old_data\<close>.
\<close>

definition compare :: "luwon_cfg \<Rightarrow> int \<Rightarrow> int \<Rightarrow> merger \<Rightarrow> error option \<times> merger" where
  "compare cfg now1 now2 s =
     (if compare_2k s = [] \<or> compare_4k s = [] then (None, s)
      else
        (case remove_old_data now1 (compare_2k s) of
           (Some e, c2) \<Rightarrow> (Some e, s\<lparr>compare_2k := c2\<rparr>)
         | (None, c2) \<Rightarrow>
        (case remove_old_data now2 (compare_4k s) of
           (Some e, c4) \<Rightarrow> (Some e, s\<lparr>compare_2k := c2, compare_4k := c4\<rparr>)
         | (None, c4) \<Rightarrow>
             compare_keys cfg
               (filter (\<lambda>k. bm_get k c4 \<noteq> None) (map fst c2))
               (s\<lparr>compare_2k := c2, compare_4k := c4\<rparr>))))"

subsection \<open>\<open>main_loop\<close>\<close>

text \<open>
  One iteration of the loop body. The blocking \<open>get\<close> needs a record in the 2K queue:
  on an empty queue there is no iteration (\<open>None\<close>). An exception ends the iteration
  where it is raised and is logged.
\<close>

definition main_loop_body ::
  "luwon_cfg \<Rightarrow> int \<Rightarrow> int \<Rightarrow> merger \<Rightarrow> (error option \<times> merger) option" where
  "main_loop_body cfg now1 now2 s =
     (case to_merge_q_2k s of
        [] \<Rightarrow> None
      | record # q \<Rightarrow>
          Some
            (case put_record record (compare_2k s) of
               (Some e, c2) \<Rightarrow> (Some e, s\<lparr>compare_2k := c2, to_merge_q_2k := q\<rparr>)
             | (None, c2) \<Rightarrow>
            (case drain_queue q c2 of
               (Some e, q2, c2') \<Rightarrow> (Some e, s\<lparr>compare_2k := c2', to_merge_q_2k := q2\<rparr>)
             | (None, q2, c2') \<Rightarrow>
            (case drain_queue (to_merge_q_4k s) (compare_4k s) of
               (Some e, q4, c4) \<Rightarrow>
                 (Some e, s\<lparr>compare_2k := c2', compare_4k := c4,
                            to_merge_q_2k := q2, to_merge_q_4k := q4\<rparr>)
             | (None, q4, c4) \<Rightarrow>
                 compare cfg now1 now2
                   (s\<lparr>compare_2k := c2', compare_4k := c4,
                      to_merge_q_2k := q2, to_merge_q_4k := q4\<rparr>)))))"

section \<open>The router and the receiver (data/router.py, data/receiver.py)\<close>

record build_result =
  to_server :: "pydict list"
  to_merge :: "pydict list"
  to_ocr :: "pydict list"

definition empty_result :: build_result where
  "empty_result = \<lparr>to_server = [], to_merge = [], to_ocr = []\<rparr>"

text \<open>\<open>s.split(sep)\<close> for a separator of one character, and \<open>sep.join(xs)\<close>.\<close>

fun split_on :: "char \<Rightarrow> string \<Rightarrow> string list" where
  "split_on c [] = [[]]"
| "split_on c (x # xs) =
     (if x = c then [] # split_on c xs
      else (case split_on c xs of [] \<Rightarrow> [[x]] | w # ws \<Rightarrow> (x # w) # ws))"

fun join :: "string \<Rightarrow> string list \<Rightarrow> string" where
  "join sep [] = []"
| "join sep [x] = x"
| "join sep (x # y # ys) = x @ sep @ join sep (y # ys)"

definition CSV_JSON_MAP_2K :: "string list" where
  "CSV_JSON_MAP_2K =
     [CAR_ID_2K, CAR_TYPE, LANE_NO, TURN_TYPE_CD, TURN_TIME, TURN_SPEED, STOP_PASS_TIME,
      STOP_PASS_SPEED, INTERVAL_SPEED, FIRST_DET_TIME, OBSERVE_TIME, IMAGE_PATH_NAME,
      CAR_IMAGE_FILE_NAME]"

fun lookup_all :: "(string \<times> string) list \<Rightarrow> string list \<Rightarrow> string list option" where
  "lookup_all d [] = Some []"
| "lookup_all d (k # ks) =
     (case map_of d k of
        None \<Rightarrow> None
      | Some v \<Rightarrow> map_option ((#) v) (lookup_all d ks))"

text \<open>
  \<open>_serialize_2k\<close> on the string fields of the parsed line. A missing field raises
  inside its \<open>try\<close>; the handler logs and the function returns \<open>None\<close>.
\<close>

definition serialize_2k :: "(string \<times> string) list \<Rightarrow> pyval" where
  "serialize_2k data =
     (case lookup_all data
             [CAR_ID_2K, STOP_PASS_TIME, CAR_TYPE, LANE_NO, TURN_TIME, STOP_PASS_SPEED,
              CAR_IMAGE_FILE_NAME] of
        Some vs \<Rightarrow> PStr (join '','' vs)
      | None \<Rightarrow> PNone)"

definition route_2k :: "luwon_cfg \<Rightarrow> string \<Rightarrow> string \<Rightarrow> error + build_result" where
  "route_2k cfg redis_data ltype =
     (let fields = zip CSV_JSON_MAP_2K (split_on CHR '','' redis_data);
          d = dset UK_PLAIN (serialize_2k fields)
                (dset DATA_TYPE (PStr ltype) (map (\<lambda>(k, v). (k, PStr v)) fields))
      in if enabled cfg then
           (case build_luwon cfg False d of
              Inl e \<Rightarrow> Inl e
            | Inr (ts, tm) \<Rightarrow> Inr \<lparr>to_server = ts, to_merge = tm, to_ocr = []\<rparr>)
         else
           (case pget d CAR_ID_2K of
              Inl e \<Rightarrow> Inl e
            | Inr cid \<Rightarrow>
                (let to_merge_table =
                       dset CAR_ID cid
                         (dset PLATE_YN (PStr ''N'') (dset DATA_TYPE (PStr MERGE) d))
                 in Inr \<lparr>to_server = [d, to_merge_table], to_merge = [d], to_ocr = []\<rparr>)))"

text \<open>
  \<open>_route_4k\<close>, from the object \<open>json.loads\<close> returned. The log line reads
  \<open>unique_key_plain\<close> from the plain dict, so a payload without it raises.
\<close>

definition route_4k :: "pydict \<Rightarrow> string \<Rightarrow> error + build_result" where
  "route_4k parsed ltype =
     (let d = dset DATA_TYPE (PStr ltype) parsed
      in case pget d UK_PLAIN of
           Inl e \<Rightarrow> Inl e
         | Inr uk \<Rightarrow> Inr \<lparr>to_server = [d], to_merge = [d], to_ocr = []\<rparr>)"

definition route_presence :: "string \<Rightarrow> string \<Rightarrow> error + build_result" where
  "route_presence redis_data ltype =
     (case py_int (PStr (strip redis_data)) of
        Inl e \<Rightarrow> Inl e
      | Inr state \<Rightarrow>
          Inr \<lparr>to_server =
                 [[(DATA_TYPE, PStr ltype), (PRESENCE_STATE, PInt state), (UK_PLAIN, PInt state)]],
               to_merge = [], to_ocr = []\<rparr>)"

text \<open>The loop of \<open>_set_destination\<close> over \<open>to_server\<close>.\<close>

fun tag_server :: "string list \<Rightarrow> pydict list \<Rightarrow> error + pydict list" where
  "tag_server send_to [] = Inr []"
| "tag_server send_to (d # ds) =
     (case pget d DATA_TYPE of
        Inl e \<Rightarrow> Inl e
      | Inr t \<Rightarrow>
          (let d' = (if t = PStr MERGE \<and> map_of d ''_send_to'' \<noteq> None
                         \<and> map_of d ''_send_to'' \<noteq> Some PNone
                     then d else dset ''_send_to'' (PList (map PStr send_to)) d)
           in case tag_server send_to ds of Inl e \<Rightarrow> Inl e | Inr ds' \<Rightarrow> Inr (d' # ds')))"

definition set_destination :: "build_result \<Rightarrow> string list option \<Rightarrow> error + build_result" where
  "set_destination res send_to =
     (case send_to of
        None \<Rightarrow> Inr res
      | Some names \<Rightarrow>
          (case tag_server names (to_server res) of
             Inl e \<Rightarrow> Inl e
           | Inr ts \<Rightarrow>
               Inr \<lparr>to_server = ts,
                    to_merge = map (dset ''_send_to'' (PList (map PStr names))) (to_merge res),
                    to_ocr = map (dset ''_send_to'' (PList (map PStr names))) (to_ocr res)\<rparr>))"

text \<open>
  \<open>route_data\<close>, given the entry of \<open>BUILD_FUNCTION_MAP\<close> for the label
  (\<open>None\<close>: the label is not in the table). A failing builder gives an empty result;
  an exception of \<open>_set_destination\<close> is not caught here.
\<close>

definition route_data ::
  "(string \<Rightarrow> error + build_result) option \<Rightarrow> string \<Rightarrow> string list option
   \<Rightarrow> error + build_result" where
  "route_data build_function redis_data send_to =
     (case build_function of
        None \<Rightarrow> Inr empty_result
      | Some f \<Rightarrow>
          (case f redis_data of
             Inl e \<Rightarrow> Inr empty_result
           | Inr res \<Rightarrow> set_destination res send_to))"

text \<open>
  The receiver of the 2K channel and the receiver of the 4K channel, with the merger
  configured: the records of \<open>to_server\<close> go to the server queue and those of
  \<open>to_merge\<close> to the channel's merge queue. An exception drops the message.
\<close>

definition receive_2k :: "error + build_result \<Rightarrow> merger \<Rightarrow> merger" where
  "receive_2k result s =
     (case result of
        Inl e \<Rightarrow> s
      | Inr res \<Rightarrow> s\<lparr>to_server_q := to_server_q s @ to_server res,
                      to_merge_q_2k := to_merge_q_2k s @ to_merge res\<rparr>)"

definition receive_4k :: "error + build_result \<Rightarrow> merger \<Rightarrow> merger" where
  "receive_4k result s =
     (case result of
        Inl e \<Rightarrow> s
      | Inr res \<Rightarrow> s\<lparr>to_server_q := to_server_q s @ to_server res,
                      to_merge_q_4k := to_merge_q_4k s @ to_merge res\<rparr>)"

section \<open>The sender (data/sender.py)\<close>

subsection \<open>Environment\<close>

text \<open>
  The configuration \<open>image_remote\<close>, the class attributes \<open>camera_id\<close> and
  \<open>lane_offset\<close> (\<open>PNone\<close> and \<open>None\<close> while unset), and the library functions the
  prepare step calls: the two hex digests of utils/hash.py on the UTF-8 encoding of a
  string, and \<open>datetime.utcfromtimestamp(t).strftime('%Y%m%d%H%M%S')\<close>.
\<close>

record image_remote =
  car_image_path_2k :: string
  car_image_path_4k :: string
  queue_image_path :: string
  abnormal_image_path :: string

record sender_env =
  camera_id :: pyval
  lane_offset :: "int option"
  remote :: image_remote
  hash_sha256 :: "string \<Rightarrow> string"
  hash_md5 :: "string \<Rightarrow> string"
  utc_stamp :: "int \<Rightarrow> error + string"

subsection \<open>Operators\<close>

text \<open>
  \<open>a + b\<close> where the code joins path strings: both operands must be strings.
\<close>

definition str_add :: "pyval \<Rightarrow> pyval \<Rightarrow> error + pyval" where
  "str_add a b =
     (case (a, b) of
        (PStr x, PStr y) \<Rightarrow> Inr (PStr (x @ y))
      | _ \<Rightarrow> Inl TypeError)"

text \<open>
  \<open>hash_sha256(camera_id + plain)\<close>: two strings are joined and hashed. Two numbers,
  two lists or two byte strings can be added, but the sum has no \<open>encode\<close>; any other
  pair cannot be added.
\<close>

definition addable :: "pyval \<Rightarrow> pyval \<Rightarrow> bool" where
  "addable a b =
     (case (a, b) of
        (PList x, PList y) \<Rightarrow> True
      | (PBytes x, PBytes y) \<Rightarrow> True
      | _ \<Rightarrow> num_val a \<noteq> None \<and> num_val b \<noteq> None)"

definition hash_key :: "sender_env \<Rightarrow> pyval \<Rightarrow> error + pyval" where
  "hash_key env plain =
     (case (camera_id env, plain) of
        (PStr c, PStr u) \<Rightarrow> Inr (PStr (hash_sha256 env (c @ u)))
      | _ \<Rightarrow> if addable (camera_id env) plain then Inl AttributeError else Inl TypeError)"

text \<open>\<open>hash_md5(v)\<close>: only a string has \<open>encode\<close>.\<close>

definition md5_of :: "sender_env \<Rightarrow> pyval \<Rightarrow> error + string" where
  "md5_of env v = (case v of PStr x \<Rightarrow> Inr (hash_md5 env x) | _ \<Rightarrow> Inl AttributeError)"

text \<open>\<open>os.path.join\<close> of posixpath on strings.\<close>

definition path_join2 :: "string \<Rightarrow> string \<Rightarrow> string" where
  "path_join2 a b =
     (if b \<noteq> [] \<and> hd b = CHR ''/'' then b
      else if a = [] \<or> last a = CHR ''/'' then a @ b
      else a @ ''/'' @ b)"

fun os_path_join :: "string list \<Rightarrow> string" where
  "os_path_join [] = []"
| "os_path_join (a # bs) = foldl path_join2 a bs"

subsection \<open>utils/file.py\<close>

definition generate_time_path :: "sender_env \<Rightarrow> int \<Rightarrow> int \<Rightarrow> error + string" where
  "generate_time_path env unix_time image_type =
     (case utc_stamp env (unix_time + 32400) of
        Inl e \<Rightarrow> Inl e
      | Inr timestamp \<Rightarrow>
          (let year = take 4 timestamp;
               month = take 2 (drop 4 timestamp);
               day = take 2 (drop 6 timestamp);
               hour = take 2 (drop 8 timestamp);
               minute = take 2 (drop 10 timestamp)
           in if image_type = 10 \<or> image_type = 30
              then Inr (os_path_join [year, month, day, hour, minute])
              else Inr (os_path_join [year, month, day])))"

subsection \<open>The prepare step\<close>

definition hash_data :: "sender_env \<Rightarrow> pydict \<Rightarrow> error + pydict" where
  "hash_data env data =
     (let dtype = dget data DATA_TYPE;
          d0 = touch UK_PLAIN (touch DATA_TYPE data)
      in case hash_key env (dget d0 UK_PLAIN) of
           Inl e \<Rightarrow> Inl e
         | Inr uk \<Rightarrow>
             (let d1 = dset UK uk d0
              in if dtype = PStr VEHICLE_2K then
                   Inr (dset CAR_ID_2K uk (dset OBJ_ID (dget d1 CAR_ID_2K) (touch CAR_ID_2K d1)))
                 else if dtype = PStr MERGE then
                   Inr (dset CAR_ID uk (dset OBJ_ID (dget d1 CAR_ID) (touch CAR_ID d1)))
                 else if dtype = PStr VEHICLE_RAW_4K then
                   Inr (dset CAR_ID_4K uk (dset OBJ_ID (dget d1 CAR_ID_4K) (touch CAR_ID_4K d1)))
                 else Inr d1))"

text \<open>\<open>v.split("/")[-1][:-4]\<close> and \<open>name.split("_")[-1]\<close>\<close>

definition base_name :: "string \<Rightarrow> string" where
  "base_name x = (let l = last (split_on CHR ''/'' x) in take (length l - 4) l)"

definition created_time :: "string \<Rightarrow> string" where
  "created_time image_name = last (split_on CHR ''_'' image_name)"

definition file_name_of :: "pyval \<Rightarrow> error + string" where
  "file_name_of v =
     (case v of
        PStr x \<Rightarrow> Inr x
      | PBytes x \<Rightarrow> Inl TypeError
      | _ \<Rightarrow> Inl AttributeError)"

text \<open>
  \<open>_get_remote_dir\<close>: the result is the remote directory and the record with
  \<open>image_file\<close> and the image file names rewritten.
\<close>

definition get_remote_dir :: "sender_env \<Rightarrow> pydict \<Rightarrow> error + (string \<times> pydict)" where
  "get_remote_dir env data =
     (let dtype = dget data DATA_TYPE;
          d0 = touch DATA_TYPE data;
          vehicle = (dtype = PStr VEHICLE_2K \<or> dtype = PStr VEHICLE_RAW_4K \<or> dtype = PStr MERGE);
          key = (if vehicle then CAR_IMAGE_FILE_NAME else IMAGE_FILE_NAME)
      in if \<not> hashable dtype then Inl TypeError
         else
     (case file_name_of (dget d0 key) of
        Inl e \<Rightarrow> Inl e
      | Inr x \<Rightarrow>
          (let image_name = base_name x;
               d1 = dset IMAGE_FILE (dget d0 key) (touch key d0);
               image_created_time = created_time image_name;
               image_type = (if vehicle then 10 else if dtype = PStr INCIDENT_START then 30 else 20);
               rp = (if dtype = PStr VEHICLE_2K \<or> dtype = PStr MERGE then car_image_path_2k (remote env)
                     else if dtype = PStr VEHICLE_RAW_4K then car_image_path_4k (remote env)
                     else if dtype = PStr INCIDENT_START then abnormal_image_path (remote env)
                     else queue_image_path (remote env))
           in
     (case (if dtype = PStr VEHICLE_2K \<or> dtype = PStr MERGE then
              (case md5_of env (dget d1 CAR_IMAGE_FILE_NAME) of
                 Inl e \<Rightarrow> Inl e
               | Inr h \<Rightarrow> Inr (dset CAR_IMAGE_FILE_NAME (PStr (''10_'' @ h @ ''.jpg'')) d1))
            else if dtype = PStr VEHICLE_RAW_4K then
              (case md5_of env (dget d1 CAR_IMAGE_FILE_NAME) of
                 Inl e \<Rightarrow> Inl e
               | Inr h \<Rightarrow>
                   (let d2 = dset CAR_IMAGE_FILE_NAME (PStr (''10_'' @ h @ ''.jpg'')) d1
                    in if map_of d2 IMAGE_BYTES_PLATE_4K \<noteq> None
                          \<and> map_of d2 IMAGE_BYTES_PLATE_4K \<noteq> Some PNone
                       then
                         (case md5_of env (dget d2 PLATE_NUM) of
                            Inl e \<Rightarrow> Inl e
                          | Inr hp \<Rightarrow>
                              Inr (dset PLATE_IMAGE_FILE_NAME (PStr (''20_'' @ hp @ ''.jpg''))
                                     (touch PLATE_NUM d2)))
                       else Inr (dset PLATE_IMAGE_FILE_NAME (PStr ''N_PLATE'') d2)))
            else if dtype = PStr INCIDENT_START then
              (case md5_of env (dget d1 IMAGE_FILE_NAME) of
                 Inl e \<Rightarrow> Inl e
               | Inr h \<Rightarrow> Inr (dset IMAGE_FILE_NAME (PStr (''30_'' @ h @ ''.jpg'')) d1))
            else Inr (dset IMAGE_FILE_NAME (PStr (image_name @ ''.jpg'')) d1)) of
        Inl e \<Rightarrow> Inl e
      | Inr d3 \<Rightarrow>
     (case py_int (PStr image_created_time) of
        Inl e \<Rightarrow> Inl e
      | Inr t \<Rightarrow>
     (case generate_time_path env t image_type of
        Inl e \<Rightarrow> Inl e
      | Inr time_path \<Rightarrow>
     (case camera_id env of
        PStr cid \<Rightarrow> Inr (os_path_join [rp, cid, time_path], d3)
      | _ \<Rightarrow> Inl TypeError)))))))"

definition image_bearing :: "pyval \<Rightarrow> bool" where
  "image_bearing dtype =
     (dtype = PStr VEHICLE_2K \<or> dtype = PStr VEHICLE_RAW_4K \<or> dtype = PStr MERGE \<or>
      dtype = PStr INCIDENT_START \<or> dtype = PStr QUEUE_APPROACH \<or> dtype = PStr QUEUE_LANES)"

text \<open>The statements of \<open>_build_before_insert\<close> that join the local path and file names.\<close>

definition local_names :: "pydict \<Rightarrow> error + pydict" where
  "local_names data =
     (let dtype = dget data DATA_TYPE in
      if dtype = PStr VEHICLE_2K \<or> dtype = PStr VEHICLE_RAW_4K \<or> dtype = PStr MERGE then
        (let d0 = touch CAR_IMAGE_FILE_NAME (touch IMAGE_PATH_NAME data) in
         case str_add (dget d0 IMAGE_PATH_NAME) (PStr ''/'') of
           Inl e \<Rightarrow> Inl e
         | Inr p \<Rightarrow>
        (case str_add p (dget d0 CAR_IMAGE_FILE_NAME) of
           Inl e \<Rightarrow> Inl e
         | Inr f \<Rightarrow>
             (let d1 = dset CAR_IMAGE_FILE_NAME f d0 in
              if dtype = PStr VEHICLE_RAW_4K then
                (case str_add (dget d1 IMAGE_PATH_NAME) (dget d1 PLATE_IMAGE_FILE_NAME) of
                   Inl e \<Rightarrow> Inl e
                 | Inr pf \<Rightarrow> Inr (dset PLATE_IMAGE_FILE_NAME pf (touch PLATE_IMAGE_FILE_NAME d1)))
              else Inr d1)))
      else
        (let d0 = touch IMAGE_FILE_NAME (touch IMAGE_PATH_NAME data) in
         case str_add (dget d0 IMAGE_PATH_NAME) (PStr ''/'') of
           Inl e \<Rightarrow> Inl e
         | Inr p \<Rightarrow>
        (case str_add p (dget d0 IMAGE_FILE_NAME) of
           Inl e \<Rightarrow> Inl e
         | Inr f \<Rightarrow> Inr (dset IMAGE_FILE_NAME f d0))))"

definition build_before_insert :: "sender_env \<Rightarrow> pydict \<Rightarrow> error + pydict" where
  "build_before_insert env data =
     (let dtype = dget data DATA_TYPE;
          d0 = touch DATA_TYPE data;
          d1 = (if map_of d0 SPOT_CAMR_ID = None \<or> map_of d0 SPOT_CAMR_ID = Some PNone
                then dset SPOT_CAMR_ID (camera_id env) d0 else d0)
      in
     (case (if dtype = PStr VEHICLE_RAW_4K then
              (case py_int (dget d1 LANE_NO) of
                 Inl e \<Rightarrow> Inl e
               | Inr l \<Rightarrow>
                   (case lane_offset env of
                      None \<Rightarrow> Inl TypeError
                    | Some off \<Rightarrow> Inr (dset LANE_NO (PStr (str_of_int (l + off))) (touch LANE_NO d1))))
            else Inr d1) of
        Inl e \<Rightarrow> Inl e
      | Inr d2 \<Rightarrow>
     (case hash_data env d2 of
        Inl e \<Rightarrow> Inl e
      | Inr d3 \<Rightarrow>
          if \<not> hashable dtype then Inl TypeError
          else if image_bearing dtype then
            (case local_names d3 of
               Inl e \<Rightarrow> Inl e
             | Inr d4 \<Rightarrow>
                 (case get_remote_dir env d4 of
                    Inl e \<Rightarrow> Inl e
                  | Inr (dir, d5) \<Rightarrow>
                      Inr (dset ''_prepared'' (PBool True) (dset IMAGE_PATH_NAME (PStr dir) d5))))
          else Inr (dset ''_prepared'' (PBool True) d3))))"

subsection \<open>Image upload (utils/images.py)\<close>

text \<open>
  What the HTTP request of an upload comes to: the request failed
  (\<open>RequestException\<close>), the response is not JSON, or the response is a JSON object
  whose \<open>rescd\<close> entry is the given value (\<open>PNone\<close> when it has none).
\<close>

datatype http_result = RequestFailed | NotJson | Rescd pyval

definition handle_response :: "http_result \<Rightarrow> pyval" where
  "handle_response r =
     (case r of
        Rescd res_code \<Rightarrow> if res_code = PStr ''00'' then PBool True else res_code
      | _ \<Rightarrow> PBool False)"

text \<open>\<open>image_post_file\<close>: a failed request or a missing file counts as posted.\<close>

definition image_post_file :: "http_result \<Rightarrow> bool" where
  "image_post_file r = (case r of RequestFailed \<Rightarrow> True | _ \<Rightarrow> handle_response r = PBool True)"

text \<open>\<open>image_post_bytes\<close> returns what \<open>handle_response\<close> returned.\<close>

definition image_post_bytes :: "http_result \<Rightarrow> pyval \<Rightarrow> pyval" where
  "image_post_bytes r image_bytes =
     (if image_bytes = PStr ''NULL'' then PBool True
      else (case r of RequestFailed \<Rightarrow> PBool False | _ \<Rightarrow> handle_response r))"

subsection \<open>Truth values\<close>

fun truthy :: "pyval \<Rightarrow> bool" where
  "truthy PNone = False"
| "truthy (PBool b) = b"
| "truthy (PInt i) = (i \<noteq> 0)"
| "truthy (PFloat r) = (r \<noteq> 0)"
| "truthy (PStr x) = (x \<noteq> [])"
| "truthy (PBytes x) = (x \<noteq> [])"
| "truthy (PList xs) = (xs \<noteq> [])"
| "truthy (PDict kvs) = (kvs \<noteq> [])"

definition py_and :: "pyval \<Rightarrow> pyval \<Rightarrow> pyval" where
  "py_and a b = (if truthy a then b else a)"

subsection \<open>The send functions\<close>

text \<open>
  A server is given by its name and the boolean its \<open>insert\<close> returns in this round.
  \<open>allowed_servers\<close> is the record's \<open>_send_to\<close>, or \<open>None\<close> for the set of all
  server names. The send functions return the exception or \<open>sqlite_insert\<close>, the record,
  and the list of the \<open>insert\<close> calls made (server name and record passed).
\<close>

type_synonym server = "string \<times> bool"

definition name_in :: "string \<Rightarrow> pyval \<Rightarrow> error + bool" where
  "name_in n container =
     (case container of
        PList xs \<Rightarrow> Inr (PStr n \<in> set xs)
      | PStr x \<Rightarrow> Inr (sublist n x)
      | PDict kvs \<Rightarrow> Inr (n \<in> set (map fst kvs))
      | _ \<Rightarrow> Inl TypeError)"

definition allowed :: "server list \<Rightarrow> pyval option \<Rightarrow> string \<Rightarrow> error + bool" where
  "allowed servers allowed_servers n =
     (case allowed_servers of
        None \<Rightarrow> Inr (n \<in> set (map fst servers))
      | Some c \<Rightarrow> name_in n c)"

text \<open>\<open>data["sent_to"]\<close> as a dict, and the write back into the record.\<close>

definition sent_to_of :: "pydict \<Rightarrow> error + pydict" where
  "sent_to_of data = (case dget data ''sent_to'' of PDict st \<Rightarrow> Inr st | _ \<Rightarrow> Inl TypeError)"

definition with_sent_to :: "pydict \<Rightarrow> pydict \<Rightarrow> pydict" where
  "with_sent_to st data = dset ''sent_to'' (PDict st) data"

fun send_default_loop ::
  "server list \<Rightarrow> server list \<Rightarrow> pyval option \<Rightarrow> pydict \<Rightarrow> bool \<Rightarrow> (string \<times> pydict) list
   \<Rightarrow> (error + bool) \<times> pydict \<times> (string \<times> pydict) list" where
  "send_default_loop all [] allowed_servers data sqlite_insert calls =
     (Inr sqlite_insert, data, calls)"
| "send_default_loop all ((server_name, result) # servers) allowed_servers data sqlite_insert calls =
     (case allowed all allowed_servers server_name of
        Inl e \<Rightarrow> (Inl e, data, calls)
      | Inr False \<Rightarrow> send_default_loop all servers allowed_servers data sqlite_insert calls
      | Inr True \<Rightarrow>
          (case sent_to_of data of
             Inl e \<Rightarrow> (Inl e, data, calls)
           | Inr st \<Rightarrow>
               (let st1 = (if map_of st server_name = None
                           then dset server_name (PBool False) st else st)
                in if map_of st1 server_name = Some (PBool True) then
                     send_default_loop all servers allowed_servers (with_sent_to st1 data)
                       sqlite_insert calls
                   else
                     (let d1 = touch UK (touch UK_PLAIN (touch DATA_TYPE (with_sent_to st1 data)));
                          d2 = with_sent_to (dset server_name (PBool result) st1) d1
                      in send_default_loop all servers allowed_servers d2
                           (sqlite_insert \<or> \<not> result) (calls @ [(server_name, d1)])))))"

definition send_default ::
  "server list \<Rightarrow> pyval option \<Rightarrow> pydict
   \<Rightarrow> (error + bool) \<times> pydict \<times> (string \<times> pydict) list" where
  "send_default servers allowed_servers data =
     send_default_loop servers servers allowed_servers
       (touch DATA_TYPE (touch ''sent_to'' data)) False []"

text \<open>
  \<open>_send_2k\<close>, \<open>_send_wait\<close> and \<open>_send_abnormal\<close> differ in the file name key
  only: the image file is posted unless \<open>sent_to["API"]\<close> is not \<open>False\<close>.
\<close>

definition send_file ::
  "string \<Rightarrow> http_result \<Rightarrow> server list \<Rightarrow> pyval option \<Rightarrow> pydict
   \<Rightarrow> (error + bool) \<times> pydict \<times> (string \<times> pydict) list" where
  "send_file file_name post servers allowed_servers data =
     (case sent_to_of data of
        Inl e \<Rightarrow> (Inl e, data, [])
      | Inr st \<Rightarrow>
          (let d0 = touch ''sent_to'' data;
               st1 = (if map_of st ''API'' = None then dset ''API'' (PBool False) st else st)
           in if map_of st1 ''API'' = Some (PBool False) then
                (let is_posted = image_post_file post;
                     d1 = touch file_name (touch IMAGE_PATH_NAME (touch IMAGE_FILE d0));
                     d2 = with_sent_to (dset ''API'' (PBool is_posted) st1) d1
                 in case send_default servers allowed_servers d2 of
                      (Inl e, d3, calls) \<Rightarrow> (Inl e, d3, calls)
                    | (Inr b, d3, calls) \<Rightarrow> (Inr (b \<or> \<not> is_posted), d3, calls))
              else send_default servers allowed_servers (with_sent_to st1 d0)))"

definition send_2k ::
  "http_result \<Rightarrow> server list \<Rightarrow> pyval option \<Rightarrow> pydict
   \<Rightarrow> (error + bool) \<times> pydict \<times> (string \<times> pydict) list" where
  "send_2k = send_file CAR_IMAGE_FILE_NAME"

definition send_wait ::
  "http_result \<Rightarrow> server list \<Rightarrow> pyval option \<Rightarrow> pydict
   \<Rightarrow> (error + bool) \<times> pydict \<times> (string \<times> pydict) list" where
  "send_wait = send_file IMAGE_FILE_NAME"

definition send_abnormal ::
  "http_result \<Rightarrow> server list \<Rightarrow> pyval option \<Rightarrow> pydict
   \<Rightarrow> (error + bool) \<times> pydict \<times> (string \<times> pydict) list" where
  "send_abnormal = send_file IMAGE_FILE_NAME"

text \<open>
  \<open>_send_raw_4k\<close>, with the outcomes of the request for the vehicle image and of the
  request for the plate image.
\<close>

definition send_raw_4k ::
  "http_result \<Rightarrow> http_result \<Rightarrow> server list \<Rightarrow> pyval option \<Rightarrow> pydict
   \<Rightarrow> (error + bool) \<times> pydict \<times> (string \<times> pydict) list" where
  "send_raw_4k car_post plate_post servers allowed_servers data =
     (case sent_to_of data of
        Inl e \<Rightarrow> (Inl e, data, [])
      | Inr st \<Rightarrow>
          (let d0 = touch ''sent_to'' data;
               st1 = (if map_of st ''API'' = None then dset ''API'' (PBool False) st else st)
           in if map_of st1 ''API'' = Some (PBool False) then
                (let d1 = touch CAR_IMAGE_FILE_NAME (touch IMAGE_PATH_NAME (touch IMAGE_BYTES_4K d0));
                     car_posted = image_post_bytes car_post (dget d1 IMAGE_BYTES_4K);
                     d2 = touch PLATE_IMAGE_FILE_NAME (touch IMAGE_BYTES_PLATE_4K d1);
                     plate_posted = image_post_bytes plate_post (dget d2 IMAGE_BYTES_PLATE_4K);
                     is_posted = py_and car_posted plate_posted;
                     d3 = (if truthy is_posted
                           then AList.delete IMAGE_BYTES_PLATE_4K (AList.delete IMAGE_BYTES_4K d2)
                           else d2);
                     d4 = with_sent_to (dset ''API'' is_posted st1) d3
                 in case send_default servers allowed_servers d4 of
                      (Inl e, d5, calls) \<Rightarrow> (Inl e, d5, calls)
                    | (Inr b, d5, calls) \<Rightarrow> (Inr (b \<or> is_posted = PBool False), d5, calls))
              else send_default servers allowed_servers (with_sent_to st1 d0)))"

subsection \<open>The spool (server\_adaptor/sqlite\_table.py, sqlite\_adaptor.py)\<close>

text \<open>
  \<open>json.dumps\<close> raises \<open>TypeError\<close> on a byte string anywhere in the value. A stored
  payload is kept as the value whose JSON text it is.
\<close>

fun json_ok :: "pyval \<Rightarrow> bool" where
  "json_ok (PBytes x) = False"
| "json_ok (PList xs) = list_all json_ok xs"
| "json_ok (PDict kvs) = list_all (\<lambda>kv. json_ok (snd kv)) kvs"
| "json_ok v = True"

definition json_dumps :: "pydict \<Rightarrow> error + pydict" where
  "json_dumps data = (if json_ok (PDict data) then Inr data else Inl TypeError)"

record spool =
  rows :: "(nat \<times> pydict) list"
  next_id :: nat

text \<open>\<open>FailedMessageTable.insert\<close>\<close>

definition table_insert :: "pydict \<Rightarrow> spool \<Rightarrow> error + spool" where
  "table_insert data sp =
     (case json_dumps data of
        Inl e \<Rightarrow> Inl e
      | Inr payload \<Rightarrow>
          Inr \<lparr>rows = rows sp @ [(next_id sp, payload)], next_id = Suc (next_id sp)\<rparr>)"

text \<open>\<open>SqliteAdaptor.insert\<close> catches every exception and returns \<open>False\<close>.\<close>

definition sqlite_insert :: "pydict \<Rightarrow> spool \<Rightarrow> bool \<times> spool" where
  "sqlite_insert data sp =
     (case table_insert data sp of
        Inl e \<Rightarrow> (False, sp)
      | Inr sp' \<Rightarrow> (True, sp'))"

subsection \<open>\<open>DataSender.main_loop\<close>\<close>

text \<open>
  The uploads of one round: the request of a file upload, and the two requests of a
  raw-4K record.
\<close>

record uploads =
  file_post :: http_result
  car_post :: http_result
  plate_post :: http_result

record sender_result =
  raised :: "error option"
  spooled :: "bool option"
  calls :: "(string \<times> pydict) list"
  spool_after :: spool

text \<open>
  The loop body for one record taken from the server queue. \<open>spooled\<close> is the result of
  the spool insert when there was one.
\<close>

definition sender_body ::
  "sender_env \<Rightarrow> server list \<Rightarrow> uploads \<Rightarrow> pydict \<Rightarrow> spool \<Rightarrow> sender_result" where
  "sender_body env servers up data sp =
     (let dtype = dget data DATA_TYPE;
          d0 = touch DATA_TYPE data
      in if camera_id env = PNone then
           (case sqlite_insert d0 sp of
              (ok, sp') \<Rightarrow> \<lparr>raised = None, spooled = Some ok, calls = [], spool_after = sp'\<rparr>)
         else
           (let d1 = (if map_of d0 ''sent_to'' = None \<or> map_of d0 ''sent_to'' = Some PNone
                      then dset ''sent_to'' (PDict []) d0 else d0)
            in case (if map_of d1 ''_prepared'' = None \<or> map_of d1 ''_prepared'' = Some PNone
                     then build_before_insert env d1 else Inr d1) of
                 Inl e \<Rightarrow> \<lparr>raised = Some e, spooled = None, calls = [], spool_after = sp\<rparr>
               | Inr d2 \<Rightarrow>
                   if \<not> hashable dtype then
                     \<lparr>raised = Some TypeError, spooled = None, calls = [], spool_after = sp\<rparr>
                   else
                     (let allowed_servers =
                            (case map_of d2 ''_send_to'' of
                               None \<Rightarrow> None
                             | Some PNone \<Rightarrow> None
                             | Some c \<Rightarrow> Some c)
                      in case (if dtype = PStr VEHICLE_2K then
                                 send_2k (file_post up) servers allowed_servers d2
                               else if dtype = PStr VEHICLE_RAW_4K then
                                 send_raw_4k (car_post up) (plate_post up) servers allowed_servers d2
                               else if dtype = PStr QUEUE_APPROACH then
                                 send_wait (file_post up) servers allowed_servers d2
                               else if dtype = PStr INCIDENT_START then
                                 send_abnormal (file_post up) servers allowed_servers d2
                               else send_default servers allowed_servers d2) of
                           (Inl e, d3, cs) \<Rightarrow>
                             \<lparr>raised = Some e, spooled = None, calls = cs, spool_after = sp\<rparr>
                         | (Inr False, d3, cs) \<Rightarrow>
                             \<lparr>raised = None, spooled = None, calls = cs, spool_after = sp\<rparr>
                         | (Inr True, d3, cs) \<Rightarrow>
                             (case sqlite_insert (touch UK_PLAIN d3) sp of
                                (ok, sp') \<Rightarrow>
                                  \<lparr>raised = None, spooled = Some ok, calls = cs,
                                   spool_after = sp'\<rparr>))))"

subsection \<open>\<open>RedisAdaptor._publish\<close>\<close>

text \<open>
  The message published: for a presence record \<open>str(data[PRESENCE_STATE])\<close>, for any
  other record its JSON text. \<open>str\<close> is given here for the values a presence record
  holds; \<open>StrOf v\<close> is \<open>str(v)\<close> for any other value.
\<close>

datatype message = Text string | Json pydict | StrOf pyval

definition publish :: "pydict \<Rightarrow> error + message" where
  "publish data =
     (let dtype = dget data DATA_TYPE in
      if \<not> hashable dtype then Inl TypeError
      else if dtype = PStr PRESENCE_VH \<or> dtype = PStr PRESENCE_WAIT \<or> dtype = PStr PRESENCE_CROSS
      then
        (case dget data PRESENCE_STATE of
           PInt i \<Rightarrow> Inr (Text (str_of_int i))
         | PStr x \<Rightarrow> Inr (Text x)
         | PBool b \<Rightarrow> Inr (Text (if b then ''True'' else ''False''))
         | PNone \<Rightarrow> Inr (Text ''None'')
         | v \<Rightarrow> Inr (StrOf v))
      else (case json_dumps data of Inl e \<Rightarrow> Inl e | Inr j \<Rightarrow> Inr (Json j)))"

section \<open>The OCR stage (data/lp\_detector.py)\<close>

subsection \<open>\<open>_ocr_plate\<close>\<close>

text \<open>
  A detection that passed the non-maximum suppression: its box \<open>[x, y, w, h]\<close>, its
  confidence and its class id. The coordinates are Python integers. The regression and
  the comparisons against it are floating-point computations in the code; they are
  computed here in exact rational arithmetic, and a confidence is kept as the rational
  number the float denotes.
\<close>

record det =
  box_x :: int
  box_y :: int
  box_w :: int
  box_h :: int
  confidence :: rat
  class_id :: nat

text \<open>
  \<open>LinearRegression().fit(x_center, y_center)\<close>: the least-squares line of \<open>y\<close> on
  \<open>x\<close>, with slope 0 when all \<open>x\<close> are equal. The result is \<open>(coef_, intercept_)\<close>.
\<close>

definition mean :: "rat list \<Rightarrow> rat" where
  "mean xs = sum_list xs / of_nat (length xs)"

definition linear_regression :: "rat list \<Rightarrow> rat list \<Rightarrow> rat \<times> rat" where
  "linear_regression xs ys =
     (let mx = mean xs; my = mean ys;
          sxx = sum_list (map (\<lambda>x. (x - mx) * (x - mx)) xs);
          sxy = sum_list (map (\<lambda>(x, y). (x - mx) * (y - my)) (zip xs ys));
          a = (if sxx = 0 then 0 else sxy / sxx)
      in (a, my - a * mx))"

text \<open>
  The double loop that sets \<open>zipped[j][0][1] = zipped[i][0][1]\<close> whenever the two
  y-coordinates differ by less than 9, on the list of the y-coordinates.
\<close>

definition snap_inner :: "nat \<Rightarrow> int list \<Rightarrow> int list" where
  "snap_inner i ys =
     fold (\<lambda>j ys. if i \<noteq> j \<and> \<bar>ys ! i - ys ! j\<bar> < 9 then ys[j := ys ! i] else ys)
       [0..<length ys] ys"

definition snap :: "int list \<Rightarrow> int list" where
  "snap ys = fold snap_inner [0..<length ys] ys"

text \<open>The character of a class id: the digit itself up to 9, else the class name.\<close>

definition class_char :: "string list \<Rightarrow> nat \<Rightarrow> error + string" where
  "class_char names c =
     (if c > 9 then (if c < length names then Inr (names ! c) else Inl IndexError)
      else Inr (str_of_nat c))"

fun plate_text :: "string list \<Rightarrow> det list \<Rightarrow> error + string" where
  "plate_text names [] = Inr []"
| "plate_text names (d # ds) =
     (case class_char names (class_id d) of
        Inl e \<Rightarrow> Inl e
      | Inr c \<Rightarrow> (case plate_text names ds of Inl e \<Rightarrow> Inl e | Inr t \<Rightarrow> Inr (c @ t)))"

text \<open>
  \<open>_ocr_plate\<close> from the detections kept by the suppression; \<open>None\<close> stands for a
  plate image that is \<open>None\<close>. \<open>names\<close> is the list of class names of the OCR model.
\<close>

definition ocr_plate :: "string list \<Rightarrow> det list option \<Rightarrow> error + (string \<times> rat)" where
  "ocr_plate names plate =
     (case plate of
        None \<Rightarrow> Inr (''N_PLATE'', 1 / 10)
      | Some zipped0 \<Rightarrow>
          if zipped0 = [] then Inr (''N_OCR'', 1 / 10)
          else
            (let x_center = map (\<lambda>d. of_int (box_x d)) zipped0;
                 y_center = map (\<lambda>d. of_int (box_y d)) zipped0;
                 (a, b) = linear_regression x_center y_center;
                 y_predict = map (\<lambda>x. a * x + b) x_center;
                 variance = sum_list (map (\<lambda>(p, y). (p - y) * (p - y)) (zip y_predict y_center))
                              / of_nat (length zipped0);
                 conf = sum_list (map confidence zipped0);
                 zipped = map (\<lambda>(d, y). d\<lparr>box_y := y\<rparr>) (zip zipped0 (snap (map box_y zipped0)))
             in
            (case (if variance \<ge> 10 then
                     (let zip1 = map fst (filter (\<lambda>(d, p). of_int (box_y d) < p) (zip zipped y_predict));
                          zip2 = map fst (filter (\<lambda>(d, p). \<not> of_int (box_y d) < p) (zip zipped y_predict))
                      in if zip1 = [] then Inl ZeroDivisionError
                         else if zip2 = [] then Inl ZeroDivisionError
                         else
                           (let u_x = mean (map (\<lambda>d. of_int (box_x d)) zip1);
                                u_y = mean (map (\<lambda>d. of_int (box_y d)) zip1);
                                d_x = mean (map (\<lambda>d. of_int (box_x d)) zip2);
                                d_y = mean (map (\<lambda>d. of_int (box_y d)) zip2);
                                center_x = (u_x + d_x) / 2;
                                center_y = (u_y + d_y) / 2;
                                b' = center_y - a * center_x;
                                upper = filter (\<lambda>d. of_int (box_y d) < a * of_int (box_x d) + b') zipped;
                                down = filter (\<lambda>d. \<not> of_int (box_y d) < a * of_int (box_x d) + b') zipped
                            in Inr (sort_key box_x upper @ sort_key box_x down)))
                   else Inr (sort_key box_x zipped)) of
               Inl e \<Rightarrow> Inl e
             | Inr ordered \<Rightarrow>
                 (case plate_text names ordered of
                    Inl e \<Rightarrow> Inl e
                  | Inr plate_num \<Rightarrow> Inr (plate_num, conf)))))"

subsection \<open>\<open>LpDetector.main_loop\<close>\<close>

text \<open>
  What processing one candidate file comes to. \<open>load\<close>: reading and removing the file
  raised, or \<open>cv2.imread\<close> returned the image (\<open>None\<close> for an unreadable file).
  \<open>recognise\<close>: what \<open>_detect_plate_crop\<close> and \<open>_ocr_plate\<close> come to on the image, the
  cropped plate (\<open>None\<close> when no plate was found), the text and the confidence, or the
  exception one of them raised. A confidence is compared only, and is a real number here.
\<close>

datatype 'img loaded = LoadRaised error | Loaded "'img option"

record 'img candidate =
  load :: "'img loaded"
  recognise :: "error + ('img option \<times> string \<times> real)"

record 'img best =
  best_ocr :: real
  best_plate_num :: string
  best_plate :: "'img option"
  best_image :: "'img option"

definition best_init :: "'img best" where
  "best_init = \<lparr>best_ocr = 0, best_plate_num = [], best_plate = None, best_image = None\<rparr>"

text \<open>The loop over the candidate files; \<open>motor\<close> is \<open>data[CAR_TYPE] == "MOTOR"\<close>.\<close>

fun ocr_loop :: "bool \<Rightarrow> 'img candidate list \<Rightarrow> 'img best \<Rightarrow> error + 'img best" where
  "ocr_loop motor [] b = Inr b"
| "ocr_loop motor (c # cs) b =
     (if motor then
        (if best_image b = None then
           (case load c of
              LoadRaised e \<Rightarrow> Inl e
            | Loaded img \<Rightarrow> ocr_loop motor cs (b\<lparr>best_image := img, best_plate_num := ''N_PLATE''\<rparr>))
         else ocr_loop motor cs b)
      else
        (case load c of
           LoadRaised e \<Rightarrow> ocr_loop motor cs b
         | Loaded img \<Rightarrow>
             (case recognise c of
                Inl e \<Rightarrow> Inl e
              | Inr (plate_image, plate_num, ocr_conf) \<Rightarrow>
                  if ocr_conf > best_ocr b then
                    ocr_loop motor cs
                      \<lparr>best_ocr = ocr_conf, best_plate_num = plate_num,
                       best_plate = plate_image, best_image = img\<rparr>
                  else ocr_loop motor cs b)))"

datatype outcome = Forwarded pydict | Dropped | Raised error

text \<open>
  The chain \<open>a + "_" + b + ...\<close> of string concatenations, left to right.
\<close>

fun str_add_all :: "pyval \<Rightarrow> pyval list \<Rightarrow> error + pyval" where
  "str_add_all a [] = Inr a"
| "str_add_all a (b # bs) = (case str_add a b of Inl e \<Rightarrow> Inl e | Inr c \<Rightarrow> str_add_all c bs)"

text \<open>
  The part of the loop body after the candidates are processed. \<open>encode\<close> is
  \<open>cv2.imencode(".jpg", _)\<close>: it raises, or reports failure (\<open>None\<close>), or gives the
  bytes.
\<close>

definition encode_images ::
  "('img \<Rightarrow> error + string option) \<Rightarrow> 'img \<Rightarrow> 'img option \<Rightarrow> pydict \<Rightarrow> outcome" where
  "encode_images encode img plate d =
     (case encode img of
        Inl e \<Rightarrow> Forwarded (touch PLATE_NUM (touch UK_PLAIN d))
      | Inr None \<Rightarrow> Dropped
      | Inr (Some buffer) \<Rightarrow>
          (let d' = dset IMAGE_BYTES_4K (PBytes buffer) d
           in case plate of
                None \<Rightarrow> Forwarded (touch PLATE_NUM (touch UK_PLAIN d'))
              | Some p \<Rightarrow>
                  (case encode p of
                     Inl e \<Rightarrow> Forwarded (touch PLATE_NUM (touch UK_PLAIN d'))
                   | Inr None \<Rightarrow> Dropped
                   | Inr (Some pbuffer) \<Rightarrow>
                       Forwarded
                         (touch PLATE_NUM
                           (touch UK_PLAIN (dset IMAGE_BYTES_PLATE_4K (PBytes pbuffer) d'))))))"

definition finalize ::
  "('img \<Rightarrow> error + string option) \<Rightarrow> 'img best \<Rightarrow> pydict \<Rightarrow> outcome" where
  "finalize encode b data =
     (case best_image b of
        None \<Rightarrow> Forwarded (touch PLATE_NUM (touch UK_PLAIN data))
      | Some img \<Rightarrow>
          (let d1 = dset PLATE_NUM (PStr (best_plate_num b))
                      (dset PLATE_YN
                        (PStr (if best_plate_num b = ''N_PLATE'' then ''N'' else ''Y'')) data);
               d2 = touch STOP_PASS_TIME (touch LANE_NO (touch CAR_TYPE (touch CAR_ID_4K d1)))
           in case str_add_all (dget d2 CAR_ID_4K)
                     [PStr ''_'', dget d2 CAR_TYPE, PStr ''_'', dget d2 LANE_NO, PStr ''_'',
                      dget d2 STOP_PASS_TIME, PStr ''.jpg''] of
                Inl e \<Rightarrow> Raised e
              | Inr car_name \<Rightarrow>
                  (case str_add (dget d2 CAR_ID_4K) (PStr ''.jpg'') of
                     Inl e \<Rightarrow> Raised e
                   | Inr plate_name \<Rightarrow>
                       encode_images encode img (best_plate b)
                         (dset PLATE_IMAGE_FILE_NAME plate_name
                           (dset CAR_IMAGE_FILE_NAME car_name d2)))))"

text \<open>
  The loop body for one raw-4K record, given the candidate files \<open>_grep_images\<close> found
  and what their processing comes to.
\<close>

definition lp_body ::
  "('img \<Rightarrow> error + string option) \<Rightarrow> 'img candidate list \<Rightarrow> pydict \<Rightarrow> outcome" where
  "lp_body encode image_paths data =
     (let d0 = touch STOP_PASS_TIME (touch CAR_ID_4K (touch IMAGE_PATH_NAME data))
      in case file_name_of (dget d0 IMAGE_PATH_NAME) of
           Inl e \<Rightarrow> Raised e
         | Inr base_dir \<Rightarrow>
             if image_paths = [] then
               Forwarded
                 (touch UK_PLAIN
                   (dset PLATE_IMAGE_FILE_NAME (PStr ''N_IMAGE'')
                     (dset CAR_IMAGE_FILE_NAME (PStr ''N_IMAGE'')
                       (dset IMAGE_PATH_NAME (PStr ''N_IMAGE'')
                         (dset PLATE_YN (PStr ''N'') (dset PLATE_NUM (PStr ''N_PLATE'') d0))))))
             else
               (case ocr_loop (dget d0 CAR_TYPE = PStr ''MOTOR'') image_paths best_init of
                  Inl e \<Rightarrow> Raised e
                | Inr b \<Rightarrow> finalize encode b (touch CAR_TYPE d0)))"

section \<open>Notions used in the statements\<close>

text \<open>
  \<open>int(record[STOP_PASS_TIME])\<close>, the time the merger reads from a buffered record.
\<close>

definition stop_time :: "pydict \<Rightarrow> error + int" where
  "stop_time r = py_int (dget r STOP_PASS_TIME)"


text \<open>
  The condition under which the two-pointer loop matches a 2K item and a 4K item, and the
  records one match of the two items puts on the server queue.
\<close>

definition within_window :: "pydict \<Rightarrow> pydict \<Rightarrow> bool" where
  "within_window item_2k item_4k =
     (case (stop_time item_2k, stop_time item_4k) of
        (Inr t2, Inr t4) \<Rightarrow> \<bar>t2 - t4\<bar> \<le> 1
      | _ \<Rightarrow> False)"

definition emitted :: "luwon_cfg \<Rightarrow> pydict \<Rightarrow> pydict \<Rightarrow> pydict list" where
  "emitted cfg item_2k item_4k = fst (snd (merge_pair cfg item_2k item_4k))"


text \<open>
  What a run of the two-pointer loop from the pointers \<open>i\<close>, \<open>j\<close> adds to the lists of
  matched indices and to the server queue.
\<close>

definition walk_post ::
  "luwon_cfg \<Rightarrow> pydict list \<Rightarrow> pydict list \<Rightarrow> nat \<Rightarrow> nat \<Rightarrow> nat list \<Rightarrow> nat list \<Rightarrow> pydict list
   \<Rightarrow> nat list \<Rightarrow> nat list \<Rightarrow> pydict list \<Rightarrow> bool" where
  "walk_post cfg d2 d4 i j m2 m4 out m2' m4' out' =
     (\<exists>n2 n4. m2' = m2 @ n2 \<and> m4' = m4 @ n4 \<and>
        list_all2 (\<lambda>a b. i \<le> a \<and> a < length d2 \<and> j \<le> b \<and> b < length d4 \<and>
                          within_window (d2 ! a) (d4 ! b)) n2 n4 \<and>
        out' = out @ concat (map2 (emitted cfg) (map ((!) d2) n2) (map ((!) d4) n4)))"


text \<open>
  A buffered record has a time when \<open>int(record[STOP_PASS_TIME])\<close> succeeds; \<open>tm\<close> is
  that time. A bucket is in order when every record has a time and the times are sorted,
  which is what \<open>_insert_sorted\<close> and the binary searches rely on. A bucket is fresh at
  \<open>now\<close> when no record in it is older than \<open>now - 60\<close>.
\<close>

definition has_time :: "pydict \<Rightarrow> bool" where
  "has_time r = (case stop_time r of Inr t \<Rightarrow> True | Inl e \<Rightarrow> False)"

definition tm :: "pydict \<Rightarrow> int" where
  "tm r = (case stop_time r of Inr t \<Rightarrow> t | Inl e \<Rightarrow> 0)"

definition bucket_ok :: "pydict list \<Rightarrow> bool" where
  "bucket_ok b = (list_all has_time b \<and> sorted (map tm b))"

definition all_buckets :: "(pydict list \<Rightarrow> bool) \<Rightarrow> bmap \<Rightarrow> bool" where
  "all_buckets P m = list_all (\<lambda>kb. P (snd kb)) m"

definition buckets_ok :: "bmap \<Rightarrow> bool" where
  "buckets_ok m = all_buckets bucket_ok m"

definition fresh_bucket :: "int \<Rightarrow> pydict list \<Rightarrow> bool" where
  "fresh_bucket now b = list_all (\<lambda>r. has_time r \<and> now - 60 \<le> tm r) b"

definition fresh :: "int \<Rightarrow> bmap \<Rightarrow> bool" where
  "fresh now m = all_buckets (fresh_bucket now) m"

text \<open>Fixtures: the special site switched off, and two small buckets of one key.\<close>

definition cfg_off :: luwon_cfg where
  "cfg_off = \<lparr>enabled = False, dir_straight = \<lparr>cam_id = PNone, lane = []\<rparr>,
     dir_left = \<lparr>cam_id = PNone, lane = []\<rparr>, dir_right = \<lparr>cam_id = PNone, lane = []\<rparr>\<rparr>"

definition w_2k :: "pydict list" where
  "w_2k = [[(CAR_ID_2K, PStr ''776''), (STOP_PASS_TIME, PStr ''1700000000'')],
           [(CAR_ID_2K, PStr ''777''), (STOP_PASS_TIME, PStr ''1700000002'')]]"

definition w_4k :: "pydict list" where
  "w_4k = [[(CAR_ID_4K, PStr ''888''), (STOP_PASS_TIME, PInt 1700000003), (PLATE_NUM, PStr ''12GA3456''),
            (PLATE_IMAGE_FILE_NAME, PStr ''888.jpg''), (UK_PLAIN, PStr ''888'')]]"


text \<open>
  A 2K record whose stop pass time is 98 seconds before the clock reading 1700000100, the
  merger with that record in its 2K queue and nothing else, and a merger with both
  buffers filled.
\<close>

definition stale_2k :: pydict where
  "stale_2k = [(CAR_ID_2K, PStr ''777''), (CAR_TYPE, PStr ''PCAR''), (LANE_NO, PStr ''2''),
               (TURN_TYPE_CD, PStr ''11''), (STOP_PASS_TIME, PInt 1700000002)]"

definition stale_state :: merger where
  "stale_state = \<lparr>compare_2k = [], compare_4k = [], to_server_q = [],
                   to_merge_q_2k = [stale_2k], to_merge_q_4k = []\<rparr>"

definition both_state :: merger where
  "both_state =
     \<lparr>compare_2k = [((PStr ''2'', PStr ''PCAR''), w_2k)],
      compare_4k = [((PStr ''2'', PStr ''PCAR''), w_4k)],
      to_server_q = [], to_merge_q_2k = [], to_merge_q_4k = []\<rparr>"

section \<open>Facts about records\<close>

lemma map_of_touch:
  "map_of (touch k d) k' =
     (if k' = k \<and> map_of d k = None then Some (PStr ''NULL'') else map_of d k')"
  by (auto simp: touch_def map_add_def split: option.splits)

lemma dget_touch [simp]: "dget (touch k d) k' = dget d k'"
  by (auto simp: dget_def map_of_touch split: option.splits)

lemma map_of_dset: "map_of (dset k v d) = (map_of d)(k \<mapsto> v)"
  by (simp add: dset_def update_conv')

lemma dget_dset: "dget (dset k v d) k' = (if k' = k then v else dget d k')"
  by (simp add: dget_def map_of_dset)

lemma int_of_str_NULL: "int_of_str ''NULL'' = None"
  by (simp add: int_of_str_def strip_def is_space_def is_digit_def)

lemma stop_time_present:
  assumes "stop_time r = Inr t"
  shows "map_of r STOP_PASS_TIME \<noteq> None"
proof
  assume "map_of r STOP_PASS_TIME = None"
  then have "stop_time r = Inl ValueError"
    by (simp add: stop_time_def dget_def int_of_str_NULL)
  with assms show False by simp
qed

lemma touch_stop_id: "stop_time r = Inr t \<Longrightarrow> touch STOP_PASS_TIME r = r"
  using stop_time_present [of r t] by (auto simp: touch_def split: option.splits)



section \<open>The two-pointer loop\<close>

lemma merge_pair_error_puts_nothing:
  "merge_pair cfg x y = (Some e, put, x', y') \<Longrightarrow> put = []"
  by (auto simp: merge_pair_def Let_def split: if_splits sum.splits prod.splits list.splits)

lemma walk_done:
  "\<not> (i < length d2 \<and> j < length d4) \<Longrightarrow> walk cfg d2 d4 i j m2 m4 out = (None, d2, d4, m2, m4, out)"
  by (subst walk.simps) auto

lemma walk_err2:
  "i < length d2 \<Longrightarrow> j < length d4 \<Longrightarrow> stop_time (d2 ! i) = Inl e \<Longrightarrow>
   walk cfg d2 d4 i j m2 m4 out =
     (Some e, d2[i := touch STOP_PASS_TIME (d2 ! i)], d4, m2, m4, out)"
  by (subst walk.simps) (simp add: stop_time_def)

lemma walk_err4:
  "i < length d2 \<Longrightarrow> j < length d4 \<Longrightarrow> stop_time (d2 ! i) = Inr t2 \<Longrightarrow>
   stop_time (d4 ! j) = Inl e \<Longrightarrow>
   walk cfg d2 d4 i j m2 m4 out =
     (Some e, d2, d4[j := touch STOP_PASS_TIME (d4 ! j)], m2, m4, out)"
  using touch_stop_id [of "d2 ! i" t2]
  by (subst walk.simps) (simp add: stop_time_def)

lemma walk_match_err:
  "i < length d2 \<Longrightarrow> j < length d4 \<Longrightarrow> stop_time (d2 ! i) = Inr t2 \<Longrightarrow>
   stop_time (d4 ! j) = Inr t4 \<Longrightarrow> \<bar>t2 - t4\<bar> \<le> 1 \<Longrightarrow>
   merge_pair cfg (d2 ! i) (d4 ! j) = (Some e, put, x, y) \<Longrightarrow>
   walk cfg d2 d4 i j m2 m4 out = (Some e, d2[i := x], d4[j := y], m2, m4, out @ put)"
  using touch_stop_id [of "d2 ! i" t2] touch_stop_id [of "d4 ! j" t4]
  by (subst walk.simps) (simp add: stop_time_def)

lemma walk_match:
  "i < length d2 \<Longrightarrow> j < length d4 \<Longrightarrow> stop_time (d2 ! i) = Inr t2 \<Longrightarrow>
   stop_time (d4 ! j) = Inr t4 \<Longrightarrow> \<bar>t2 - t4\<bar> \<le> 1 \<Longrightarrow>
   merge_pair cfg (d2 ! i) (d4 ! j) = (None, put, x, y) \<Longrightarrow>
   walk cfg d2 d4 i j m2 m4 out =
     walk cfg (d2[i := x]) (d4[j := y]) (i + 1) (j + 1) (m2 @ [i]) (m4 @ [j]) (out @ put)"
  using touch_stop_id [of "d2 ! i" t2] touch_stop_id [of "d4 ! j" t4]
  by (subst walk.simps) (simp add: stop_time_def)

lemma walk_skip2:
  "i < length d2 \<Longrightarrow> j < length d4 \<Longrightarrow> stop_time (d2 ! i) = Inr t2 \<Longrightarrow>
   stop_time (d4 ! j) = Inr t4 \<Longrightarrow> \<not> \<bar>t2 - t4\<bar> \<le> 1 \<Longrightarrow> t2 < t4 - 1 \<Longrightarrow>
   walk cfg d2 d4 i j m2 m4 out = walk cfg d2 d4 (i + 1) j m2 m4 out"
  using touch_stop_id [of "d2 ! i" t2] touch_stop_id [of "d4 ! j" t4]
  by (subst walk.simps) (simp add: stop_time_def)

lemma walk_skip4:
  "i < length d2 \<Longrightarrow> j < length d4 \<Longrightarrow> stop_time (d2 ! i) = Inr t2 \<Longrightarrow>
   stop_time (d4 ! j) = Inr t4 \<Longrightarrow> \<not> \<bar>t2 - t4\<bar> \<le> 1 \<Longrightarrow> \<not> t2 < t4 - 1 \<Longrightarrow>
   walk cfg d2 d4 i j m2 m4 out = walk cfg d2 d4 i (j + 1) m2 m4 out"
  using touch_stop_id [of "d2 ! i" t2] touch_stop_id [of "d4 ! j" t4]
  by (subst walk.simps) (auto simp: stop_time_def)

lemma walk_post_refl: "walk_post cfg d2 d4 i j m2 m4 out m2 m4 out"
  unfolding walk_post_def by (rule exI [of _ "[]"], rule exI [of _ "[]"]) simp

lemma walk_post_skip2:
  assumes "walk_post cfg d2 d4 (Suc i) j m2 m4 out m2' m4' out'"
  shows "walk_post cfg d2 d4 i j m2 m4 out m2' m4' out'"
proof -
  from assms obtain n2 n4 where h: "m2' = m2 @ n2" "m4' = m4 @ n4"
    "list_all2 (\<lambda>a b. Suc i \<le> a \<and> a < length d2 \<and> j \<le> b \<and> b < length d4 \<and>
                          within_window (d2 ! a) (d4 ! b)) n2 n4"
    "out' = out @ concat (map2 (emitted cfg) (map ((!) d2) n2) (map ((!) d4) n4))"
    unfolding walk_post_def by blast
  from h(3) have "list_all2 (\<lambda>a b. i \<le> a \<and> a < length d2 \<and> j \<le> b \<and> b < length d4 \<and>
                          within_window (d2 ! a) (d4 ! b)) n2 n4"
    by (rule list_all2_mono) simp
  with h show ?thesis unfolding walk_post_def by blast
qed

lemma walk_post_skip4:
  assumes "walk_post cfg d2 d4 i (Suc j) m2 m4 out m2' m4' out'"
  shows "walk_post cfg d2 d4 i j m2 m4 out m2' m4' out'"
proof -
  from assms obtain n2 n4 where h: "m2' = m2 @ n2" "m4' = m4 @ n4"
    "list_all2 (\<lambda>a b. i \<le> a \<and> a < length d2 \<and> Suc j \<le> b \<and> b < length d4 \<and>
                          within_window (d2 ! a) (d4 ! b)) n2 n4"
    "out' = out @ concat (map2 (emitted cfg) (map ((!) d2) n2) (map ((!) d4) n4))"
    unfolding walk_post_def by blast
  from h(3) have "list_all2 (\<lambda>a b. i \<le> a \<and> a < length d2 \<and> j \<le> b \<and> b < length d4 \<and>
                          within_window (d2 ! a) (d4 ! b)) n2 n4"
    by (rule list_all2_mono) simp
  with h show ?thesis unfolding walk_post_def by blast
qed

lemma map_nth_update_above:
  assumes "list_all (\<lambda>a. i < a) ns"
  shows "map ((!) (xs[i := x])) ns = map ((!) xs) ns"
  using assms by (induction ns) auto

lemma walk_post_match:
  assumes lt: "i < length d2" "j < length d4"
      and w: "within_window (d2 ! i) (d4 ! j)"
      and put: "put = emitted cfg (d2 ! i) (d4 ! j)"
      and rec: "walk_post cfg (d2[i := x]) (d4[j := y]) (Suc i) (Suc j)
                  (m2 @ [i]) (m4 @ [j]) (out @ put) m2' m4' out'"
  shows "walk_post cfg d2 d4 i j m2 m4 out m2' m4' out'"
proof -
  from rec obtain n2 n4 where h: "m2' = (m2 @ [i]) @ n2" "m4' = (m4 @ [j]) @ n4"
    "list_all2 (\<lambda>a b. Suc i \<le> a \<and> a < length (d2[i := x]) \<and> Suc j \<le> b \<and>
                      b < length (d4[j := y]) \<and>
                      within_window (d2[i := x] ! a) (d4[j := y] ! b)) n2 n4"
    "out' = (out @ put) @
       concat (map2 (emitted cfg) (map ((!) (d2[i := x])) n2) (map ((!) (d4[j := y])) n4))"
    unfolding walk_post_def by blast
  have a2: "list_all (\<lambda>a. i < a) n2"
    using h(3) by (induction n2 n4 rule: list_all2_induct) auto
  have a4: "list_all (\<lambda>b. j < b) n4"
    using h(3) by (induction n2 n4 rule: list_all2_induct) auto
  have l: "list_all2 (\<lambda>a b. i \<le> a \<and> a < length d2 \<and> j \<le> b \<and> b < length d4 \<and>
                          within_window (d2 ! a) (d4 ! b)) n2 n4"
    using h(3) by (rule list_all2_mono) auto
  have l': "list_all2 (\<lambda>a b. i \<le> a \<and> a < length d2 \<and> j \<le> b \<and> b < length d4 \<and>
                          within_window (d2 ! a) (d4 ! b)) (i # n2) (j # n4)"
    using l lt w by simp
  have o: "out' = out @ concat (map2 (emitted cfg) (map ((!) d2) (i # n2)) (map ((!) d4) (j # n4)))"
    using h(4) put by (simp add: map_nth_update_above [OF a2] map_nth_update_above [OF a4])
  show ?thesis
    unfolding walk_post_def
    using h(1,2) l' o by (intro exI [of _ "i # n2"] exI [of _ "j # n4"]) simp
qed

lemma walk_gen:
  "walk cfg d2 d4 i j m2 m4 out = (e, d2', d4', m2', m4', out') \<Longrightarrow>
   walk_post cfg d2 d4 i j m2 m4 out m2' m4' out'"
proof (induction "(length d2 - i) + (length d4 - j)" arbitrary: d2 d4 i j m2 m4 out
        rule: less_induct)
  case less
  note res = less.prems
  show ?case
  proof (cases "i < length d2 \<and> j < length d4")
    case False
    with res show ?thesis by (simp add: walk_done walk_post_refl)
  next
    case True
    then have lt: "i < length d2" "j < length d4" by simp_all
    show ?thesis
    proof (cases "stop_time (d2 ! i)")
      case (Inl e2)
      with res lt show ?thesis by (simp add: walk_err2 walk_post_refl)
    next
      case t2: (Inr t2)
      show ?thesis
      proof (cases "stop_time (d4 ! j)")
        case (Inl e4)
        with res lt t2 show ?thesis by (simp add: walk_err4 walk_post_refl)
      next
        case t4: (Inr t4)
        show ?thesis
        proof (cases "\<bar>t2 - t4\<bar> \<le> 1")
          case near: True
          have w: "within_window (d2 ! i) (d4 ! j)"
            using t2 t4 near by (simp add: within_window_def)
          obtain me put x y where mp: "merge_pair cfg (d2 ! i) (d4 ! j) = (me, put, x, y)"
            by (cases "merge_pair cfg (d2 ! i) (d4 ! j)") auto
          have put: "put = emitted cfg (d2 ! i) (d4 ! j)"
            using mp by (simp add: emitted_def)
          show ?thesis
          proof (cases me)
            case (Some e')
            with res lt t2 t4 near mp
            have eq: "m2' = m2" "m4' = m4" "out' = out @ put"
              by (simp_all add: walk_match_err)
            have "put = []"
              using mp Some by (simp add: merge_pair_error_puts_nothing)
            then show ?thesis using eq by (simp add: walk_post_refl)
          next
            case None
            with res lt t2 t4 near mp
            have r: "walk cfg (d2[i := x]) (d4[j := y]) (i + 1) (j + 1) (m2 @ [i]) (m4 @ [j])
                       (out @ put) = (e, d2', d4', m2', m4', out')"
              by (simp add: walk_match)
            have "walk_post cfg (d2[i := x]) (d4[j := y]) (i + 1) (j + 1) (m2 @ [i]) (m4 @ [j])
                    (out @ put) m2' m4' out'"
              using lt by (intro less.hyps [OF _ r]) simp
            then show ?thesis using walk_post_match [OF lt w put] by simp
          qed
        next
          case far: False
          show ?thesis
          proof (cases "t2 < t4 - 1")
            case True
            with res lt t2 t4 far
            have r: "walk cfg d2 d4 (i + 1) j m2 m4 out = (e, d2', d4', m2', m4', out')"
              by (simp add: walk_skip2)
            have "walk_post cfg d2 d4 (i + 1) j m2 m4 out m2' m4' out'"
              using lt by (intro less.hyps [OF _ r]) simp
            then show ?thesis using walk_post_skip2 by simp
          next
            case False
            with res lt t2 t4 far
            have r: "walk cfg d2 d4 i (j + 1) m2 m4 out = (e, d2', d4', m2', m4', out')"
              by (simp add: walk_skip4)
            have "walk_post cfg d2 d4 i (j + 1) m2 m4 out m2' m4' out'"
              using lt by (intro less.hyps [OF _ r]) simp
            then show ?thesis using walk_post_skip4 by simp
          qed
        qed
      qed
    qed
  qed
qed



text \<open>
  Claim C6 (merge window). The two-pointer loop of \<open>_compare\<close>, run on the buckets
  \<open>data_2k\<close> and \<open>data_4k\<close> of one key, records the matched indices in \<open>matched_2k\<close>
  and \<open>matched_4k\<close> pairwise, and every recorded pair of a 2K item and a 4K item has stop
  pass times \<open>t2\<close>, \<open>t4\<close> with \<open>|t2 - t4| \<le> 1\<close>. The records put on the server queue
  are exactly those of the recorded pairs, in order; no merged record is emitted for any
  other pair.
\<close>

theorem merge_window:
  assumes "walk cfg data_2k data_4k 0 0 [] [] [] = (e, d2, d4, matched_2k, matched_4k, put)"
  shows "list_all2 (\<lambda>a b. a < length data_2k \<and> b < length data_4k \<and>
                            within_window (data_2k ! a) (data_4k ! b)) matched_2k matched_4k \<and>
         put = concat (map2 (emitted cfg) (map ((!) data_2k) matched_2k) (map ((!) data_4k) matched_4k))"
proof -
  from walk_gen [OF assms] obtain n2 n4 where h: "matched_2k = n2" "matched_4k = n4"
    "list_all2 (\<lambda>a b. 0 \<le> a \<and> a < length data_2k \<and> 0 \<le> b \<and> b < length data_4k \<and>
                          within_window (data_2k ! a) (data_4k ! b)) n2 n4"
    "put = concat (map2 (emitted cfg) (map ((!) data_2k) n2) (map ((!) data_4k) n4))"
    unfolding walk_post_def by auto
  from h(3) have "list_all2 (\<lambda>a b. a < length data_2k \<and> b < length data_4k \<and>
                            within_window (data_2k ! a) (data_4k ! b)) n2 n4"
    by (rule list_all2_mono) simp
  with h show ?thesis by simp
qed

lemma int_of_str_1700000000: "int_of_str ''1700000000'' = Some 1700000000"
  by (simp add: int_of_str_def strip_def is_space_def is_digit_def digit_val_def)

lemma int_of_str_1700000002: "int_of_str ''1700000002'' = Some 1700000002"
  by (simp add: int_of_str_def strip_def is_space_def is_digit_def digit_val_def)

lemma walk_witness_run:
  "walk cfg_off w_2k w_4k 0 0 [] [] [] =
     (None,
      [w_2k ! 0, w_2k ! 1 @ [(UK_PLAIN, PStr ''NULL'')]],
      [w_4k ! 0],
      [1], [0],
      [[(CAR_ID_2K, PStr ''777''), (STOP_PASS_TIME, PStr ''1700000002''), (DATA_TYPE, PStr MERGE),
        (CAR_ID, PStr ''777''), (PLATE_IMAGE_FILE_NAME, PStr ''888.jpg''),
        (PLATE_NUM, PStr ''12GA3456'')]])"
  by (simp add: walk.simps w_2k_def w_4k_def cfg_off_def dget_def touch_def dset_def
        int_of_str_1700000000 int_of_str_1700000002 merge_pair_def merged_of_def Let_def)

theorem merge_window_witness:
  "list_all2 (\<lambda>a b. a < length w_2k \<and> b < length w_4k \<and> within_window (w_2k ! a) (w_4k ! b))
     [1] [0]"
  using merge_window [OF walk_witness_run] by simp


section \<open>Binary search\<close>

lemma bisect_loop_spec:
  assumes "sorted a" "lo \<le> hi" "hi \<le> length a"
      and "\<forall>k<lo. a ! k < x" "\<forall>k. hi \<le> k \<and> k < length a \<longrightarrow> x \<le> a ! k"
  shows "lo \<le> bisect_loop a x lo hi \<and> bisect_loop a x lo hi \<le> hi \<and>
         (\<forall>k<bisect_loop a x lo hi. a ! k < x) \<and>
         (\<forall>k. bisect_loop a x lo hi \<le> k \<and> k < length a \<longrightarrow> x \<le> a ! k)"
  using assms
proof (induction a x lo hi rule: bisect_loop.induct)
  case (1 a x lo hi)
  show ?case
  proof (cases "lo < hi")
    case False
    then have eq: "bisect_loop a x lo hi = lo"
      by (subst bisect_loop.simps) simp
    from False "1.prems" show ?thesis unfolding eq by auto
  next
    case True
    define mid where "mid = (lo + hi) div 2"
    have m: "lo \<le> mid" "mid < hi" using True by (simp_all add: mid_def)
    show ?thesis
    proof (cases "a ! mid < x")
      case lt: True
      have below: "\<forall>k<mid + 1. a ! k < x"
      proof (intro allI impI)
        fix k assume "k < mid + 1"
        then have "k \<le> mid" by simp
        then have "a ! k \<le> a ! mid"
          using "1.prems"(1,3) m by (simp add: sorted_iff_nth_mono)
        with lt show "a ! k < x" by simp
      qed
      have ih: "mid + 1 \<le> bisect_loop a x (mid + 1) hi \<and> bisect_loop a x (mid + 1) hi \<le> hi \<and>
         (\<forall>k<bisect_loop a x (mid + 1) hi. a ! k < x) \<and>
         (\<forall>k. bisect_loop a x (mid + 1) hi \<le> k \<and> k < length a \<longrightarrow> x \<le> a ! k)"
        using "1.IH"(1) [OF True mid_def lt "1.prems"(1) _ "1.prems"(3) below "1.prems"(5)] m
        by simp
      have eq: "bisect_loop a x lo hi = bisect_loop a x (mid + 1) hi"
        using True lt by (simp add: bisect_loop.simps [of a x lo hi] mid_def Let_def)
      show ?thesis using ih m unfolding eq by auto
    next
      case ge: False
      have above: "\<forall>k. mid \<le> k \<and> k < length a \<longrightarrow> x \<le> a ! k"
      proof (intro allI impI)
        fix k assume "mid \<le> k \<and> k < length a"
        then have "a ! mid \<le> a ! k"
          using "1.prems"(1) by (simp add: sorted_iff_nth_mono)
        with ge show "x \<le> a ! k" by simp
      qed
      have ih: "lo \<le> bisect_loop a x lo mid \<and> bisect_loop a x lo mid \<le> mid \<and>
         (\<forall>k<bisect_loop a x lo mid. a ! k < x) \<and>
         (\<forall>k. bisect_loop a x lo mid \<le> k \<and> k < length a \<longrightarrow> x \<le> a ! k)"
        using "1.IH"(2) [OF True mid_def ge "1.prems"(1) _ _ "1.prems"(4) above] m "1.prems"(3)
        by simp
      have eq: "bisect_loop a x lo hi = bisect_loop a x lo mid"
        using True ge by (simp add: bisect_loop.simps [of a x lo hi] mid_def Let_def)
      show ?thesis using ih m unfolding eq by auto
    qed
  qed
qed

lemma bisect_left_spec:
  assumes "sorted a"
  shows "bisect_left a x \<le> length a \<and>
         (\<forall>k<bisect_left a x. a ! k < x) \<and>
         (\<forall>k. bisect_left a x \<le> k \<and> k < length a \<longrightarrow> x \<le> a ! k)"
  using bisect_loop_spec [OF assms, of 0 "length a" x] by (simp add: bisect_left_def)

lemma bisect_left_drop:
  assumes "sorted a"
  shows "list_all (\<lambda>t. x \<le> t) (drop (bisect_left a x) a)"
proof -
  have "\<forall>t \<in> set (drop (bisect_left a x) a). x \<le> t"
  proof
    fix t assume "t \<in> set (drop (bisect_left a x) a)"
    then obtain i where i: "i < length (drop (bisect_left a x) a)" "t = drop (bisect_left a x) a ! i"
      by (auto simp: in_set_conv_nth)
    then have "t = a ! (bisect_left a x + i)" "bisect_left a x + i < length a" by auto
    with bisect_left_spec [OF assms, of x] show "x \<le> t" by auto
  qed
  then show ?thesis by (simp add: list_all_iff)
qed

lemma bisect_left_take:
  assumes "sorted a"
  shows "list_all (\<lambda>t. t < x) (take (bisect_left a x) a)"
proof -
  have "\<forall>t \<in> set (take (bisect_left a x) a). t < x"
  proof
    fix t assume "t \<in> set (take (bisect_left a x) a)"
    then obtain i where i: "i < length (take (bisect_left a x) a)" "t = take (bisect_left a x) a ! i"
      by (auto simp: in_set_conv_nth)
    then have "t = a ! i" "i < bisect_left a x" by auto
    with bisect_left_spec [OF assms, of x] show "t < x" by auto
  qed
  then show ?thesis by (simp add: list_all_iff)
qed


section \<open>Buckets and their times\<close>

lemma has_time_stop: "has_time r \<Longrightarrow> stop_time r = Inr (tm r)"
  by (auto simp: has_time_def tm_def split: sum.splits)

lemma has_time_entry:
  assumes "has_time r"
  shows "py_int (case map_of r STOP_PASS_TIME of Some v \<Rightarrow> v | None \<Rightarrow> PInt 0) = Inr (tm r)"
proof -
  from assms have st: "stop_time r = Inr (tm r)" by (rule has_time_stop)
  then obtain v where "map_of r STOP_PASS_TIME = Some v"
    using stop_time_present [of r "tm r"] by auto
  with st show ?thesis by (simp add: stop_time_def dget_def)
qed

lemma times_of_ok: "list_all has_time b \<Longrightarrow> times_of b = Inr (map tm b)"
  by (induction b) (simp_all add: has_time_entry)

lemma has_time_cong: "stop_time r' = stop_time r \<Longrightarrow> has_time r' = has_time r"
  by (simp add: has_time_def)

lemma tm_cong: "stop_time r' = stop_time r \<Longrightarrow> tm r' = tm r"
  by (simp add: tm_def)

lemma bucket_ok_cong:
  assumes "map stop_time b' = map stop_time b"
  shows "bucket_ok b' = bucket_ok b"
proof -
  have h: "\<And>xs. map has_time xs = map (\<lambda>s. case s of Inr t \<Rightarrow> True | Inl e \<Rightarrow> False) (map stop_time xs)"
    by (simp add: has_time_def)
  have t: "\<And>xs. map tm xs = map (\<lambda>s. case s of Inr t \<Rightarrow> t | Inl e \<Rightarrow> 0) (map stop_time xs)"
    by (simp add: tm_def)
  have a: "\<And>xs. list_all has_time xs = list_all (\<lambda>x. x) (map has_time xs)"
    by (simp add: list_all_iff)
  have "map has_time b' = map has_time b" using assms by (simp only: h)
  moreover have "map tm b' = map tm b" using assms by (simp only: t)
  ultimately show ?thesis by (simp only: bucket_ok_def a)
qed


lemma fresh_bucket_cong:
  assumes "map stop_time b' = map stop_time b"
  shows "fresh_bucket now b' = fresh_bucket now b"
proof -
  have h: "\<And>xs. map (\<lambda>r. has_time r \<and> now - 60 \<le> tm r) xs =
             map (\<lambda>s. case s of Inr t \<Rightarrow> now - 60 \<le> t | Inl e \<Rightarrow> False) (map stop_time xs)"
    by (auto simp: has_time_def tm_def split: sum.splits)
  have a: "\<And>xs. fresh_bucket now xs = list_all (\<lambda>x. x) (map (\<lambda>r. has_time r \<and> now - 60 \<le> tm r) xs)"
    by (simp add: fresh_bucket_def list_all_iff)
  show ?thesis using assms by (simp only: a h)
qed

section \<open>Aging\<close>

lemma drop_bucket_ok: "bucket_ok b \<Longrightarrow> bucket_ok (drop k b)"
  by (auto simp: bucket_ok_def list_all_iff drop_map [symmetric] sorted_wrt_drop dest: in_set_dropD)

lemma drop_bisect_fresh:
  assumes "bucket_ok b"
  shows "fresh_bucket now (drop (bisect_left (map tm b) (now - 60)) b)"
proof -
  let ?k = "bisect_left (map tm b) (now - 60)"
  from assms have s: "sorted (map tm b)" and h: "list_all has_time b"
    by (simp_all add: bucket_ok_def)
  have "list_all (\<lambda>t. now - 60 \<le> t) (drop ?k (map tm b))"
    using s by (rule bisect_left_drop)
  then have "list_all (\<lambda>r. now - 60 \<le> tm r) (drop ?k b)"
    by (simp add: drop_map list_all_iff)
  moreover have "list_all has_time (drop ?k b)"
    using h by (auto simp: list_all_iff dest: in_set_dropD)
  ultimately show ?thesis by (simp add: fresh_bucket_def list_all_iff)
qed

lemma remove_old_data_ok:
  assumes "buckets_ok m"
  shows "\<exists>m'. remove_old_data now m = (None, m') \<and> buckets_ok m' \<and> fresh now m'"
  using assms
proof (induction m)
  case Nil
  then show ?case by (simp add: buckets_ok_def fresh_def all_buckets_def)
next
  case (Cons kb m)
  obtain key bucket where kb: "kb = (key, bucket)" by (cases kb)
  from Cons.prems kb have b: "bucket_ok bucket" and rest: "buckets_ok m"
    by (simp_all add: buckets_ok_def all_buckets_def)
  from Cons.IH [OF rest] obtain m' where
    ih: "remove_old_data now m = (None, m')" "buckets_ok m'" "fresh now m'" by blast
  let ?k = "bisect_left (map tm bucket) (now - 60)"
  let ?b = "drop ?k bucket"
  have t: "times_of bucket = Inr (map tm bucket)"
    using b by (simp add: bucket_ok_def times_of_ok)
  have eqb: "(if ?k > 0 then drop ?k bucket else bucket) = ?b" by simp
  have res: "remove_old_data now (kb # m) = (None, if ?b = [] then m' else (key, ?b) # m')"
    unfolding kb by (simp add: t ih(1) Let_def del: drop_eq_Nil drop_eq_Nil2)
  have "buckets_ok (if ?b = [] then m' else (key, ?b) # m')"
    using ih(2) drop_bucket_ok [OF b, of ?k] by (simp add: buckets_ok_def all_buckets_def)
  moreover have "fresh now (if ?b = [] then m' else (key, ?b) # m')"
    using ih(3) drop_bisect_fresh [OF b, of now] by (simp add: fresh_def all_buckets_def)
  ultimately show ?case using res by blast
qed

section \<open>The matching keeps the stop pass times\<close>

lemma stop_time_touch [simp]: "stop_time (touch k r) = stop_time r"
  by (simp add: stop_time_def)

lemma stop_time_dset: "k \<noteq> STOP_PASS_TIME \<Longrightarrow> stop_time (dset k v r) = stop_time r"
  by (simp add: stop_time_def dget_dset)

lemma merge_pair_stop_time:
  assumes "merge_pair cfg x y = (e, put, x', y')"
  shows "stop_time x' = stop_time x \<and> stop_time y' = stop_time y"
  using assms
  by (auto simp: merge_pair_def Let_def stop_time_dset
           split: if_splits sum.splits prod.splits list.splits)

lemma map_stop_time_update:
  assumes "stop_time x = stop_time (d ! i)"
  shows "map stop_time (d[i := x]) = map stop_time d"
proof (cases "i < length d")
  case True
  have "map stop_time (d[i := x]) = (map stop_time d)[i := map stop_time d ! i]"
    using True assms by (simp add: map_update)
  then show ?thesis by simp
next
  case False
  then show ?thesis by (simp add: list_update_beyond)
qed

lemma walk_stop_times:
  "walk cfg d2 d4 i j m2 m4 out = (e, d2', d4', m2', m4', out') \<Longrightarrow>
   map stop_time d2' = map stop_time d2 \<and> map stop_time d4' = map stop_time d4"
proof (induction "(length d2 - i) + (length d4 - j)" arbitrary: d2 d4 i j m2 m4 out
        rule: less_induct)
  case less
  note res = less.prems
  show ?case
  proof (cases "i < length d2 \<and> j < length d4")
    case False
    with res show ?thesis by (simp add: walk_done)
  next
    case True
    then have lt: "i < length d2" "j < length d4" by simp_all
    show ?thesis
    proof (cases "stop_time (d2 ! i)")
      case (Inl e2)
      with res lt show ?thesis by (auto simp: walk_err2 map_stop_time_update)
    next
      case t2: (Inr t2)
      show ?thesis
      proof (cases "stop_time (d4 ! j)")
        case (Inl e4)
        with res lt t2 show ?thesis by (auto simp: walk_err4 map_stop_time_update)
      next
        case t4: (Inr t4)
        show ?thesis
        proof (cases "\<bar>t2 - t4\<bar> \<le> 1")
          case near: True
          obtain me put x y where mp: "merge_pair cfg (d2 ! i) (d4 ! j) = (me, put, x, y)"
            by (cases "merge_pair cfg (d2 ! i) (d4 ! j)") auto
          from merge_pair_stop_time [OF mp]
          have u2: "map stop_time (d2[i := x]) = map stop_time d2"
            and u4: "map stop_time (d4[j := y]) = map stop_time d4"
            by (simp_all add: map_stop_time_update)
          show ?thesis
          proof (cases me)
            case (Some e')
            with res lt t2 t4 near mp have "d2' = d2[i := x]" "d4' = d4[j := y]"
              by (simp_all add: walk_match_err)
            with u2 u4 show ?thesis by simp
          next
            case None
            with res lt t2 t4 near mp
            have r: "walk cfg (d2[i := x]) (d4[j := y]) (i + 1) (j + 1) (m2 @ [i]) (m4 @ [j])
                       (out @ put) = (e, d2', d4', m2', m4', out')"
              by (simp add: walk_match)
            have "map stop_time d2' = map stop_time (d2[i := x]) \<and>
                  map stop_time d4' = map stop_time (d4[j := y])"
              using lt by (intro less.hyps [OF _ r]) simp
            with u2 u4 show ?thesis by simp
          qed
        next
          case far: False
          show ?thesis
          proof (cases "t2 < t4 - 1")
            case True
            with res lt t2 t4 far
            have r: "walk cfg d2 d4 (i + 1) j m2 m4 out = (e, d2', d4', m2', m4', out')"
              by (simp add: walk_skip2)
            show ?thesis using lt by (intro less.hyps [OF _ r]) simp
          next
            case False
            with res lt t2 t4 far
            have r: "walk cfg d2 d4 i (j + 1) m2 m4 out = (e, d2', d4', m2', m4', out')"
              by (simp add: walk_skip4)
            show ?thesis using lt by (intro less.hyps [OF _ r]) simp
          qed
        qed
      qed
    qed
  qed
qed

section \<open>Deleting the matched items\<close>

lemma sorted_del_at:
  assumes "sorted (l :: int list)"
  shows "sorted (take i l @ drop (Suc i) l)"
proof -
  have "sorted (take i l @ drop i l)" using assms by simp
  then have a: "sorted (take i l)" "\<forall>x\<in>set (take i l). \<forall>y\<in>set (drop i l). x \<le> y"
    by (auto simp only: sorted_append)
  have sub: "set (drop (Suc i) l) \<subseteq> set (drop i l)"
    by (rule set_drop_subset_set_drop) simp
  have d: "sorted (drop (Suc i) l)" using assms by (rule sorted_wrt_drop)
  show ?thesis using a d sub by (auto simp only: sorted_append)
qed

lemma del_at_bucket_ok:
  assumes "bucket_ok b"
  shows "bucket_ok (del_at i b)"
proof -
  have "sorted (map tm (del_at i b))"
    using sorted_del_at [of "map tm b" i] assms
    by (simp add: bucket_ok_def del_at_def take_map drop_map)
  moreover have "list_all has_time (del_at i b)"
    using assms
    by (auto simp: bucket_ok_def del_at_def list_all_iff dest: in_set_takeD in_set_dropD)
  ultimately show ?thesis by (simp add: bucket_ok_def)
qed

lemma del_at_fresh: "fresh_bucket now b \<Longrightarrow> fresh_bucket now (del_at i b)"
  by (auto simp: fresh_bucket_def del_at_def list_all_iff dest: in_set_takeD in_set_dropD)

lemma del_matched_keeps:
  assumes "\<And>i b. P b \<Longrightarrow> P (del_at i b)" "P b"
  shows "P (del_matched ms b)"
proof -
  have "P (fold del_at xs b)" for xs
    using assms(2) by (induction xs arbitrary: b) (simp_all add: assms(1))
  then show ?thesis by (simp add: del_matched_def)
qed

section \<open>Predicates on all buckets\<close>

lemma all_buckets_get: "all_buckets P m \<Longrightarrow> bm_get k m = Some b \<Longrightarrow> P b"
  by (induction m) (auto simp: all_buckets_def split: if_splits)

lemma all_buckets_set: "all_buckets P m \<Longrightarrow> P b \<Longrightarrow> all_buckets P (bm_set k b m)"
  by (induction m) (auto simp: all_buckets_def)

lemma all_buckets_pop: "all_buckets P m \<Longrightarrow> all_buckets P (bm_pop k m)"
  by (induction m) (auto simp: all_buckets_def)

lemma all_buckets_ensure: "all_buckets P m \<Longrightarrow> P [] \<Longrightarrow> all_buckets P (bm_ensure k m)"
  by (auto simp: bm_ensure_def all_buckets_def split: option.splits)


section \<open>The matching pass\<close>

lemma compare_keys_step:
  assumes "bm_get key (compare_2k s) = Some data_2k" "bm_get key (compare_4k s) = Some data_4k"
      and "data_2k \<noteq> []" "data_4k \<noteq> []"
      and "walk cfg data_2k data_4k 0 0 [] [] [] = (None, d2, d4, m2, m4, put)"
  shows "compare_keys cfg (key # keys) s =
         compare_keys cfg keys
           (s\<lparr>compare_2k := (if del_matched m2 d2 = [] then bm_pop key (compare_2k s)
                                else bm_set key (del_matched m2 d2) (compare_2k s)),
              compare_4k := (if del_matched m4 d4 = [] then bm_pop key (compare_4k s)
                                else bm_set key (del_matched m4 d4) (compare_4k s)),
              to_server_q := to_server_q s @ put\<rparr>)"
  using assms by (simp add: Let_def)

lemma compare_keys_keeps:
  assumes cong: "\<And>b b'. map stop_time b' = map stop_time b \<Longrightarrow> P b' = P b"
      and del: "\<And>i b. P b \<Longrightarrow> P (del_at i b)"
      and congq: "\<And>b b'. map stop_time b' = map stop_time b \<Longrightarrow> Q b' = Q b"
      and delq: "\<And>i b. Q b \<Longrightarrow> Q (del_at i b)"
  shows "all_buckets P (compare_2k s) \<Longrightarrow> all_buckets Q (compare_4k s) \<Longrightarrow>
         compare_keys cfg keys s = (e, s') \<Longrightarrow>
         all_buckets P (compare_2k s') \<and> all_buckets Q (compare_4k s')"
proof (induction keys arbitrary: s)
  case Nil
  then show ?case by simp
next
  case (Cons key keys)
  note a2 = Cons.prems(1) and a4 = Cons.prems(2) and res = Cons.prems(3)
  show ?case
  proof (cases "bm_get key (compare_2k s)")
    case None
    with res have "compare_keys cfg keys s = (e, s')" by simp
    from Cons.IH [OF a2 a4 this] show ?thesis .
  next
    case s2: (Some data_2k)
    show ?thesis
    proof (cases "bm_get key (compare_4k s)")
      case None
      with res s2 have "compare_keys cfg keys s = (e, s')" by simp
      from Cons.IH [OF a2 a4 this] show ?thesis .
    next
      case s4: (Some data_4k)
      show ?thesis
      proof (cases "data_2k = [] \<or> data_4k = []")
        case True
        with res s2 s4 have "compare_keys cfg keys s = (e, s')" by simp
        from Cons.IH [OF a2 a4 this] show ?thesis .
      next
        case False
        obtain we d2 d4 m2 m4 put where
          w: "walk cfg data_2k data_4k 0 0 [] [] [] = (we, d2, d4, m2, m4, put)"
          by (cases "walk cfg data_2k data_4k 0 0 [] [] []") auto
        have "P d2 = P data_2k"
          by (rule cong) (simp add: walk_stop_times [OF w])
        then have p2: "P d2" using all_buckets_get [OF a2 s2] by simp
        have "Q d4 = Q data_4k"
          by (rule congq) (simp add: walk_stop_times [OF w])
        then have p4: "Q d4" using all_buckets_get [OF a4 s4] by simp
        show ?thesis
        proof (cases we)
          case (Some e')
          with res s2 s4 False w
          have "s' = s\<lparr>compare_2k := bm_set key d2 (compare_2k s),
                       compare_4k := bm_set key d4 (compare_4k s),
                       to_server_q := to_server_q s @ put\<rparr>"
            by simp
          then show ?thesis
            using all_buckets_set [OF a2 p2] all_buckets_set [OF a4 p4] by simp
        next
          case None
          define d2' where "d2' = del_matched m2 d2"
          define d4' where "d4' = del_matched m4 d4"
          define c2 where "c2 = (if d2' = [] then bm_pop key (compare_2k s)
                                  else bm_set key d2' (compare_2k s))"
          define c4 where "c4 = (if d4' = [] then bm_pop key (compare_4k s)
                                  else bm_set key d4' (compare_4k s))"
          define s1 where "s1 = s\<lparr>compare_2k := c2, compare_4k := c4,
                                   to_server_q := to_server_q s @ put\<rparr>"
          have "compare_keys cfg (key # keys) s = compare_keys cfg keys s1"
            unfolding s1_def c2_def c4_def d2'_def d4'_def
            using s2 s4 False w None by (intro compare_keys_step) simp_all
          with res have r: "compare_keys cfg keys s1 = (e, s')" by simp
          have "P d2'" unfolding d2'_def using del p2 by (rule del_matched_keeps)
          then have b2: "all_buckets P (compare_2k s1)"
            using all_buckets_set [OF a2, of d2' key] all_buckets_pop [OF a2, of key]
            by (simp add: s1_def c2_def)
          have "Q d4'" unfolding d4'_def using delq p4 by (rule del_matched_keeps)
          then have b4: "all_buckets Q (compare_4k s1)"
            using all_buckets_set [OF a4, of d4' key] all_buckets_pop [OF a4, of key]
            by (simp add: s1_def c4_def)
          from Cons.IH [OF b2 b4 r] show ?thesis .
        qed
      qed
    qed
  qed
qed

lemma compare_empty:
  "compare_2k s = [] \<or> compare_4k s = [] \<Longrightarrow> compare cfg now1 now2 s = (None, s)"
  by (simp add: compare_def)

lemma compare_keeps_ok:
  assumes "buckets_ok (compare_2k s)" "buckets_ok (compare_4k s)"
      and "compare cfg now1 now2 s = (e, s')"
  shows "buckets_ok (compare_2k s') \<and> buckets_ok (compare_4k s')"
proof (cases "compare_2k s = [] \<or> compare_4k s = []")
  case True
  with assms show ?thesis by (auto simp: compare_def)
next
  case False
  from remove_old_data_ok [OF assms(1), of now1] obtain c2 where
    c2: "remove_old_data now1 (compare_2k s) = (None, c2)" "buckets_ok c2" by blast
  from remove_old_data_ok [OF assms(2), of now2] obtain c4 where
    c4: "remove_old_data now2 (compare_4k s) = (None, c4)" "buckets_ok c4" by blast
  have r: "compare_keys cfg (filter (\<lambda>k. bm_get k c4 \<noteq> None) (map fst c2))
             (s\<lparr>compare_2k := c2, compare_4k := c4\<rparr>) = (e, s')"
    using assms(3) False c2(1) c4(1) by (simp add: compare_def)
  have "all_buckets bucket_ok (compare_2k s') \<and> all_buckets bucket_ok (compare_4k s')"
  proof (rule compare_keys_keeps [where P = bucket_ok and Q = bucket_ok,
           OF bucket_ok_cong del_at_bucket_ok bucket_ok_cong del_at_bucket_ok _ _ r])
    show "all_buckets bucket_ok (compare_2k (s\<lparr>compare_2k := c2, compare_4k := c4\<rparr>))"
      using c2(2) by (simp add: buckets_ok_def)
    show "all_buckets bucket_ok (compare_4k (s\<lparr>compare_2k := c2, compare_4k := c4\<rparr>))"
      using c4(2) by (simp add: buckets_ok_def)
  qed
  then show ?thesis by (simp add: buckets_ok_def)
qed


section \<open>The main loop keeps every bucket sorted\<close>

lemma sorted_insert_at:
  assumes "sorted (ts :: int list)"
  shows "sorted (take (bisect_left ts t) ts @ t # drop (bisect_left ts t) ts)"
proof -
  let ?k = "bisect_left ts t"
  have lo: "\<forall>x\<in>set (take ?k ts). x < t"
    using bisect_left_take [OF assms, of t] by (simp add: list_all_iff)
  have hi: "\<forall>x\<in>set (drop ?k ts). t \<le> x"
    using bisect_left_drop [OF assms, of t] by (simp add: list_all_iff)
  have "sorted (take ?k ts)" "sorted (drop ?k ts)"
    using assms by (simp_all add: sorted_wrt_take sorted_wrt_drop)
  with lo hi show ?thesis by (fastforce simp: sorted_append)
qed

lemma insert_sorted_ok:
  assumes "bucket_ok b" "insert_sorted b r = Inr b'"
  shows "bucket_ok b'"
proof -
  let ?r = "touch STOP_PASS_TIME r"
  from assms(1) have t: "times_of b = Inr (map tm b)" and s: "sorted (map tm b)"
    and h: "list_all has_time b"
    by (simp_all add: bucket_ok_def times_of_ok)
  from assms(2) obtain ts where st: "stop_time ?r = Inr ts"
    by (auto simp: insert_sorted_def Let_def stop_time_def split: sum.splits)
  then have b': "b' = insert_at (bisect_left (map tm b) ts) ?r b"
    using assms(2) t by (simp add: insert_sorted_def Let_def stop_time_def)
  have hr: "has_time ?r" and tr: "tm ?r = ts"
    using st by (simp_all add: has_time_def tm_def)
  have "sorted (map tm b')"
    using sorted_insert_at [OF s, of ts] by (simp add: b' insert_at_def take_map drop_map tr)
  moreover have "list_all has_time b'"
    using h hr by (auto simp: b' insert_at_def list_all_iff dest: in_set_takeD in_set_dropD)
  ultimately show ?thesis by (simp add: bucket_ok_def)
qed

lemma bucket_ok_Nil: "bucket_ok []"
  by (simp add: bucket_ok_def)

lemma put_record_ok:
  assumes "buckets_ok m" "put_record r m = (e, m')"
  shows "buckets_ok m'"
proof -
  let ?r = "touch CAR_TYPE (touch LANE_NO r)"
  let ?key = "(dget ?r LANE_NO, dget ?r CAR_TYPE)"
  let ?m1 = "bm_ensure ?key m"
  have m1: "all_buckets bucket_ok ?m1"
    using assms(1) bucket_ok_Nil by (simp add: buckets_ok_def all_buckets_ensure)
  show ?thesis
  proof (cases "hashable (fst ?key) \<and> hashable (snd ?key)")
    case False
    with assms show ?thesis by (auto simp: put_record_def Let_def)
  next
    case True
    show ?thesis
    proof (cases "bm_get ?key ?m1")
      case None
      with True assms(2) have "m' = ?m1" by (auto simp: put_record_def Let_def)
      with m1 show ?thesis by (simp add: buckets_ok_def)
    next
      case (Some bucket)
      then have b: "bucket_ok bucket" using m1 by (rule all_buckets_get [rotated])
      show ?thesis
      proof (cases "insert_sorted bucket ?r")
        case (Inl e')
        with True Some assms(2) have "m' = ?m1" by (auto simp: put_record_def Let_def)
        with m1 show ?thesis by (simp add: buckets_ok_def)
      next
        case (Inr bucket')
        with True Some assms(2) have "m' = bm_set ?key bucket' ?m1"
          by (auto simp: put_record_def Let_def)
        moreover have "bucket_ok bucket'" using b Inr by (rule insert_sorted_ok)
        ultimately show ?thesis using m1 by (simp add: buckets_ok_def all_buckets_set)
      qed
    qed
  qed
qed

lemma drain_queue_ok:
  "buckets_ok m \<Longrightarrow> drain_queue q m = (e, q', m') \<Longrightarrow> buckets_ok m'"
proof (induction q arbitrary: m)
  case Nil
  then show ?case by simp
next
  case (Cons r q)
  show ?case
  proof (cases "map_of r TURN_TYPE_CD = Some (PStr ''41'')")
    case True
    with Cons.prems(2) have "drain_queue q m = (e, q', m')" by simp
    from Cons.IH [OF Cons.prems(1) this] show ?thesis .
  next
    case False
    obtain pe m1 where p: "put_record r m = (pe, m1)" by (cases "put_record r m")
    have ok1: "buckets_ok m1" using Cons.prems(1) p by (rule put_record_ok)
    show ?thesis
    proof (cases pe)
      case (Some e')
      with False p Cons.prems(2) have "m' = m1" by simp
      with ok1 show ?thesis by simp
    next
      case None
      with False p Cons.prems(2) have "drain_queue q m1 = (e, q', m')" by simp
      from Cons.IH [OF ok1 this] show ?thesis .
    qed
  qed
qed

lemma main_loop_body_ok:
  assumes "buckets_ok (compare_2k s)" "buckets_ok (compare_4k s)"
      and "main_loop_body cfg now1 now2 s = Some (e, s')"
  shows "buckets_ok (compare_2k s') \<and> buckets_ok (compare_4k s')"
proof -
  from assms(3) obtain r q where q: "to_merge_q_2k s = r # q"
    by (cases "to_merge_q_2k s") (simp_all add: main_loop_body_def)
  obtain pe c2 where p: "put_record r (compare_2k s) = (pe, c2)"
    by (cases "put_record r (compare_2k s)")
  have ok2: "buckets_ok c2" using assms(1) p by (rule put_record_ok)
  show ?thesis
  proof (cases pe)
    case (Some e')
    with assms(3) q p have "s' = s\<lparr>compare_2k := c2, to_merge_q_2k := q\<rparr>"
      by (simp add: main_loop_body_def)
    with ok2 assms(2) show ?thesis by simp
  next
    case pn: None
    obtain de q2 c2' where d2: "drain_queue q c2 = (de, q2, c2')"
      by (cases "drain_queue q c2") auto
    have ok2': "buckets_ok c2'" using ok2 d2 by (rule drain_queue_ok)
    show ?thesis
    proof (cases de)
      case (Some e')
      with assms(3) q p pn d2 have "s' = s\<lparr>compare_2k := c2', to_merge_q_2k := q2\<rparr>"
        by (simp add: main_loop_body_def)
      with ok2' assms(2) show ?thesis by simp
    next
      case dn: None
      obtain de4 q4 c4 where d4: "drain_queue (to_merge_q_4k s) (compare_4k s) = (de4, q4, c4)"
        by (cases "drain_queue (to_merge_q_4k s) (compare_4k s)") auto
      have ok4: "buckets_ok c4" using assms(2) d4 by (rule drain_queue_ok)
      show ?thesis
      proof (cases de4)
        case (Some e')
        with assms(3) q p pn d2 dn d4
        have "s' = s\<lparr>compare_2k := c2', compare_4k := c4,
                      to_merge_q_2k := q2, to_merge_q_4k := q4\<rparr>"
          by (simp add: main_loop_body_def)
        with ok2' ok4 show ?thesis by simp
      next
        case None
        with assms(3) q p pn d2 dn d4
        have "compare cfg now1 now2
                (s\<lparr>compare_2k := c2', compare_4k := c4,
                   to_merge_q_2k := q2, to_merge_q_4k := q4\<rparr>) = (e, s')"
          by (simp add: main_loop_body_def)
        then show ?thesis
          using ok2' ok4
          by (intro compare_keeps_ok [where s = "s\<lparr>compare_2k := c2', compare_4k := c4,
                   to_merge_q_2k := q2, to_merge_q_4k := q4\<rparr>"]) simp_all
      qed
    qed
  qed
qed

section \<open>The aging bound\<close>

lemma stop_time_w:
  "stop_time (w_2k ! 0) = Inr 1700000000" "stop_time (w_2k ! 1) = Inr 1700000002"
  "stop_time (w_4k ! 0) = Inr 1700000003"
  by (simp_all add: w_2k_def w_4k_def stop_time_def dget_def
        int_of_str_1700000000 int_of_str_1700000002)

lemma both_state_ok:
  "buckets_ok (compare_2k both_state)" "buckets_ok (compare_4k both_state)"
  using stop_time_w
  by (simp_all add: both_state_def buckets_ok_def all_buckets_def bucket_ok_def has_time_def
        tm_def w_2k_def w_4k_def)

text \<open>
  Claim C7 (aging bound), as the code has it. \<open>_compare\<close> returns at once, without
  aging, when the 2K map or the 4K map is empty. When both maps are non-empty and every
  bucket is in order (the main loop keeps it so, \<open>main_loop_body_ok\<close>), then after the
  pass, however it ends, no record older than the clock reading of the first
  \<open>_remove_old_data\<close> minus 60 is left in the 2K buffer, and none older than the clock
  reading of the second minus 60 in the 4K buffer.
\<close>

theorem aging_bound:
  assumes "buckets_ok (compare_2k s)" "buckets_ok (compare_4k s)"
      and "compare_2k s \<noteq> []" "compare_4k s \<noteq> []"
      and "compare cfg now1 now2 s = (e, s')"
  shows "fresh now1 (compare_2k s') \<and> fresh now2 (compare_4k s')"
proof -
  from remove_old_data_ok [OF assms(1), of now1] obtain c2 where
    c2: "remove_old_data now1 (compare_2k s) = (None, c2)" "fresh now1 c2" by blast
  from remove_old_data_ok [OF assms(2), of now2] obtain c4 where
    c4: "remove_old_data now2 (compare_4k s) = (None, c4)" "fresh now2 c4" by blast
  have r: "compare_keys cfg (filter (\<lambda>k. bm_get k c4 \<noteq> None) (map fst c2))
             (s\<lparr>compare_2k := c2, compare_4k := c4\<rparr>) = (e, s')"
    using assms(3,4,5) c2(1) c4(1) by (simp add: compare_def)
  have "all_buckets (fresh_bucket now1) (compare_2k s') \<and>
        all_buckets (fresh_bucket now2) (compare_4k s')"
  proof (rule compare_keys_keeps [where P = "fresh_bucket now1" and Q = "fresh_bucket now2",
           OF fresh_bucket_cong del_at_fresh fresh_bucket_cong del_at_fresh _ _ r])
    show "all_buckets (fresh_bucket now1) (compare_2k (s\<lparr>compare_2k := c2, compare_4k := c4\<rparr>))"
      using c2(2) by (simp add: fresh_def)
    show "all_buckets (fresh_bucket now2) (compare_4k (s\<lparr>compare_2k := c2, compare_4k := c4\<rparr>))"
      using c4(2) by (simp add: fresh_def)
  qed
  then show ?thesis by (simp add: fresh_def)
qed

theorem aging_bound_witness:
  "buckets_ok (compare_2k both_state) \<and> buckets_ok (compare_4k both_state) \<and>
   compare_2k both_state \<noteq> [] \<and> compare_4k both_state \<noteq> [] \<and>
   fresh 1700000061 (compare_2k (snd (compare cfg_off 1700000061 1700000050 both_state))) \<and>
   fresh 1700000050 (compare_4k (snd (compare cfg_off 1700000061 1700000050 both_state)))"
proof -
  have ne: "compare_2k both_state \<noteq> []" "compare_4k both_state \<noteq> []"
    by (simp_all add: both_state_def)
  have "compare cfg_off 1700000061 1700000050 both_state =
          (fst (compare cfg_off 1700000061 1700000050 both_state),
           snd (compare cfg_off 1700000061 1700000050 both_state))"
    by simp
  from aging_bound [OF both_state_ok ne this] both_state_ok ne show ?thesis by simp
qed

text \<open>
  The claim as stated fails when the 4K side is empty: the iteration that takes the
  stale 2K record from the queue runs \<open>_compare\<close>, which returns before aging, and the
  record stays in the 2K buffer.
\<close>

theorem aging_bound_counterexample:
  "main_loop_body cfg_off 1700000100 1700000100 stale_state =
     Some (None, \<lparr>compare_2k = [((PStr ''2'', PStr ''PCAR''), [stale_2k])], compare_4k = [],
                  to_server_q = [], to_merge_q_2k = [], to_merge_q_4k = []\<rparr>) \<and>
   \<not> fresh 1700000100 [((PStr ''2'', PStr ''PCAR''), [stale_2k])]"
  by (simp add: main_loop_body_def stale_state_def stale_2k_def put_record_def touch_def
        dget_def bm_ensure_def insert_sorted_def bisect_left_def bisect_loop.simps insert_at_def
        compare_def fresh_def all_buckets_def fresh_bucket_def has_time_def tm_def stop_time_def
        key_eq_def py_eq_def Let_def)



end
